theory Spec2Isabelle
  imports Main "HOL-Library.Sublist"
begin

section \<open>Data model of deploy_app.py\<close>

text \<open>
  A \<open>pathlib.Path\<close> is used by the deployer through two observations only: its string
  form \<open>str(path)\<close> and its final component \<open>path.name\<close>. Both are kept as data.
\<close>

record local_path =
  path_str :: string
  name :: string

text \<open>
  The local tree as \<open>exists\<close>, \<open>iterdir\<close>, \<open>is_file\<close> and \<open>is_dir\<close> show it. A file carries
  whether \<open>open(local_file, 'rb')\<close> succeeds. \<open>LOther\<close> is an entry that is neither a
  regular file nor a directory. \<open>LNoList\<close> is a directory whose \<open>iterdir()\<close> raises
  \<open>OSError\<close> (it cannot be listed). \<open>LNoStat\<close> is an entry on which \<open>exists()\<close>, \<open>is_file()\<close>
  and \<open>is_dir()\<close> raise \<open>OSError\<close> (it cannot be examined: \<open>pathlib\<close> lets a permission
  error of \<open>stat\<close> through).
\<close>

datatype local_node =
    LFile local_path bool
  | LDir local_path "local_node list"
  | LOther local_path
  | LNoList local_path
  | LNoStat local_path

fun node_path :: "local_node \<Rightarrow> local_path" where
  "node_path (LFile p readable) = p"
| "node_path (LDir p children) = p"
| "node_path (LOther p) = p"
| "node_path (LNoList p) = p"
| "node_path (LNoStat p) = p"

text \<open>
  The exceptions the code tells apart: \<open>ftplib.error_perm\<close>, and every other member of
  \<open>ftplib.all_errors\<close> (\<open>error_temp\<close>, \<open>error_proto\<close>, \<open>OSError\<close>, \<open>EOFError\<close>, ...).
\<close>

datatype ftp_error = ErrorPerm | OtherError

datatype cmd =
  LOGIN string | MKD string | CWD string | DELE string | RMD string | NLST | STOR string | QUIT

text \<open>
  The lines the program prints. The banner lines of \<open>deploy\<close> are one event each
  (\<open>StartingDeployment\<close>, \<open>DeploymentComplete\<close>), and the text of an exception is left out.
\<close>

datatype event =
    CreatedDirectory string
  | CannotCreateOrAccess string
  | Uploaded string string
  | FailedToUpload string
  | Skipped string
  | DeletedFile string
  | DeletedDirectory string
  | CouldNotDelete string
  | DoesNotExistYet string
  | CredentialsNotConfigured
  | StartingDeployment
  | Connecting string
  | ConnectedSuccessfully
  | CreatingRemoteDirectory string
  | CleaningRemoteDirectory
  | SkippedMissingItem string
  | DeploymentComplete nat
  | FtpError ftp_error

text \<open>
  The \<open>ftplib.FTP\<close> object is the program's environment. It is a parameter: a record of
  the methods the deployer calls, each a function of the server's state that returns
  either normally (\<open>None\<close>, or \<open>Inr\<close> a value) or the exception raised, and the next
  state. \<open>ftp_connect\<close> is the constructor \<open>ftplib.FTP(host)\<close>. \<open>ftp_exit\<close> is
  \<open>FTP.__exit__\<close>, which the \<open>with\<close> statement calls on every way out of its block: it
  sends \<open>QUIT\<close>, swallows an \<open>OSError\<close> or \<open>EOFError\<close> of it, and lets an error reply
  (\<open>ftplib.Error\<close>) through; the result is the exception that leaves it, if any.
  \<open>ftp_pwd\<close> is the session's current working directory; the deployer never calls it,
  it is what the claims about the working location observe.
\<close>

record 's ftp =
  ftp_connect :: "string \<Rightarrow> ftp_error + 's"
  ftp_login :: "string \<Rightarrow> string \<Rightarrow> 's \<Rightarrow> ftp_error option \<times> 's"
  ftp_mkd :: "string \<Rightarrow> 's \<Rightarrow> ftp_error option \<times> 's"
  ftp_cwd :: "string \<Rightarrow> 's \<Rightarrow> ftp_error option \<times> 's"
  ftp_delete :: "string \<Rightarrow> 's \<Rightarrow> ftp_error option \<times> 's"
  ftp_rmd :: "string \<Rightarrow> 's \<Rightarrow> ftp_error option \<times> 's"
  ftp_nlst :: "'s \<Rightarrow> (ftp_error + string list) \<times> 's"
  ftp_stor :: "string \<Rightarrow> 's \<Rightarrow> ftp_error option \<times> 's"
  ftp_exit :: "'s \<Rightarrow> ftp_error option \<times> 's"
  ftp_pwd :: "'s \<Rightarrow> string"

text \<open>
  The state a run threads through: the server, the commands sent so far with their
  outcome, and the lines printed so far.
\<close>

record 's world =
  srv :: 's
  trace :: "(cmd \<times> ftp_error option) list"
  out :: "event list"

definition print :: "event \<Rightarrow> 's world \<Rightarrow> 's world" where
  "print e w = w\<lparr>out := out w @ [e]\<rparr>"

definition send :: "cmd \<Rightarrow> ('s \<Rightarrow> ftp_error option \<times> 's) \<Rightarrow> 's world \<Rightarrow> ftp_error option \<times> 's world" where
  "send c f w = (case f (srv w) of (r, s') \<Rightarrow> (r, w\<lparr>srv := s', trace := trace w @ [(c, r)]\<rparr>))"

definition login :: "'s ftp \<Rightarrow> string \<Rightarrow> string \<Rightarrow> 's world \<Rightarrow> ftp_error option \<times> 's world" where
  "login ftp user passwd = send (LOGIN user) (ftp_login ftp user passwd)"

definition mkd :: "'s ftp \<Rightarrow> string \<Rightarrow> 's world \<Rightarrow> ftp_error option \<times> 's world" where
  "mkd ftp p = send (MKD p) (ftp_mkd ftp p)"

definition cwd :: "'s ftp \<Rightarrow> string \<Rightarrow> 's world \<Rightarrow> ftp_error option \<times> 's world" where
  "cwd ftp p = send (CWD p) (ftp_cwd ftp p)"

definition delete :: "'s ftp \<Rightarrow> string \<Rightarrow> 's world \<Rightarrow> ftp_error option \<times> 's world" where
  "delete ftp p = send (DELE p) (ftp_delete ftp p)"

definition rmd :: "'s ftp \<Rightarrow> string \<Rightarrow> 's world \<Rightarrow> ftp_error option \<times> 's world" where
  "rmd ftp p = send (RMD p) (ftp_rmd ftp p)"

definition storbinary :: "'s ftp \<Rightarrow> string \<Rightarrow> 's world \<Rightarrow> ftp_error option \<times> 's world" where
  "storbinary ftp p = send (STOR p) (ftp_stor ftp p)"

definition leave :: "'s ftp \<Rightarrow> 's world \<Rightarrow> ftp_error option \<times> 's world" where
  "leave ftp = send QUIT (ftp_exit ftp)"

definition retrlines_nlst :: "'s ftp \<Rightarrow> 's world \<Rightarrow> (ftp_error + string list) \<times> 's world" where
  "retrlines_nlst ftp w =
     (case ftp_nlst ftp (srv w) of
        (r, s') \<Rightarrow> (r, w\<lparr>srv := s',
                         trace := trace w @ [(NLST, case r of Inl e \<Rightarrow> Some e | Inr items \<Rightarrow> None)]\<rparr>))"

section \<open>Exclusion matcher\<close>

text \<open>
  \<open>should_exclude\<close>: the loop over \<open>self.exclude_patterns\<close>, returning at the first
  pattern that matches. \<open>pattern in path_str\<close> is \<open>sublist\<close>, \<open>startswith\<close> is \<open>prefix\<close>,
  \<open>endswith\<close> is \<open>suffix\<close>, \<open>pattern[1:]\<close> is \<open>drop 1\<close>.
\<close>

fun should_exclude :: "string list \<Rightarrow> local_path \<Rightarrow> bool" where
  "should_exclude [] path = False"
| "should_exclude (pattern # patterns) path =
     (if sublist pattern (path_str path) \<or> name path = pattern then True
      else if prefix ''*.'' pattern \<and> suffix (drop 1 pattern) (name path) then True
      else should_exclude patterns path)"

text \<open>
  The documented policy, in the spec's words: (1) some pattern is a literal substring of
  the path's string form, or (2) the final name component equals some pattern, or
  (3) some pattern begins with \<open>*.\<close> and the final name component ends with the pattern's
  remainder, the remainder being what follows the wildcard star (\<open>.pyc\<close> for \<open>*.pyc\<close>).
\<close>

definition exclusion_policy :: "string list \<Rightarrow> local_path \<Rightarrow> bool" where
  "exclusion_policy patterns path =
     (list_ex (\<lambda>pattern. sublist pattern (path_str path)) patterns
      \<or> list_ex (\<lambda>pattern. name path = pattern) patterns
      \<or> list_ex (\<lambda>pattern. prefix ''*.'' pattern \<and> suffix (drop 1 pattern) (name path)) patterns)"

definition default_exclude_patterns :: "string list" where
  "default_exclude_patterns =
     [''.git'', ''__pycache__'', ''*.pyc'', ''.DS_Store'', ''node_modules'', ''tile-server'',
      ''original'', ''server.py'', ''deploy_app.py'', ''*.md'', ''*.png'',
      ''VERSION_COMPARISON.md'', ''SYSTEM_DESIGN.md'', ''TILE_*'']"

section \<open>Remote directory ensurer\<close>

text \<open>\<open>path.strip('/')\<close> and \<open>s.split('/')\<close> of Python.\<close>

definition strip_slashes :: "string \<Rightarrow> string" where
  "strip_slashes s =
     rev (dropWhile (\<lambda>c. c = CHR ''/'') (rev (dropWhile (\<lambda>c. c = CHR ''/'') s)))"

fun split_slash :: "string \<Rightarrow> string list" where
  "split_slash [] = [[]]"
| "split_slash (c # s) =
     (if c = CHR ''/'' then [] # split_slash s
      else (case split_slash s of [] \<Rightarrow> [[c]] | part # parts \<Rightarrow> (c # part) # parts))"

text \<open>
  The loop of \<open>create_remote_directory\<close> over \<open>parts\<close>, with the local \<open>current_path\<close>.
  The result is the exception that leaves the method, if any.
\<close>

fun create_remote_directory_loop ::
  "'s ftp \<Rightarrow> string list \<Rightarrow> string \<Rightarrow> 's world \<Rightarrow> ftp_error option \<times> 's world" where
  "create_remote_directory_loop ftp [] current_path w = (None, w)"
| "create_remote_directory_loop ftp (part # parts) current_path w =
     (if part \<noteq> [] then
        (let current_path = (if current_path \<noteq> [] then current_path @ ''/'' @ part else part) in
         case mkd ftp current_path w of
           (None, w1) \<Rightarrow>
             create_remote_directory_loop ftp parts current_path (print (CreatedDirectory current_path) w1)
         | (Some OtherError, w1) \<Rightarrow> (Some OtherError, w1)
         | (Some ErrorPerm, w1) \<Rightarrow>
             (case cwd ftp current_path w1 of
                (Some OtherError, w2) \<Rightarrow> (Some OtherError, w2)
              | (Some ErrorPerm, w2) \<Rightarrow> (Some ErrorPerm, print (CannotCreateOrAccess current_path) w2)
              | (None, w2) \<Rightarrow>
                  (case cwd ftp ''/'' w2 of
                     (Some OtherError, w3) \<Rightarrow> (Some OtherError, w3)
                   | (Some ErrorPerm, w3) \<Rightarrow>
                       (Some ErrorPerm, print (CannotCreateOrAccess current_path) w3)
                   | (None, w3) \<Rightarrow> create_remote_directory_loop ftp parts current_path w3)))
      else create_remote_directory_loop ftp parts current_path w)"

definition create_remote_directory ::
  "'s ftp \<Rightarrow> string \<Rightarrow> 's world \<Rightarrow> ftp_error option \<times> 's world" where
  "create_remote_directory ftp path w =
     create_remote_directory_loop ftp (split_slash (strip_slashes path)) [] w"

text \<open>
  The accumulated prefixes in the spec's words: split the path on \<open>/\<close>, discard the empty
  segments, and take the running paths \<open>a\<close>, \<open>a/b\<close>, \<open>a/b/c\<close>.
\<close>

fun join_slash :: "string list \<Rightarrow> string" where
  "join_slash [] = []"
| "join_slash [seg] = seg"
| "join_slash (seg # segs) = seg @ ''/'' @ join_slash segs"

definition accumulated_prefixes :: "string \<Rightarrow> string list" where
  "accumulated_prefixes path =
     map join_slash (tl (prefixes (filter (\<lambda>seg. seg \<noteq> []) (split_slash path))))"

text \<open>
  The running values of \<open>current_path\<close>: what the loop of \<open>create_remote_directory\<close>
  builds from the value it starts with and the parts that are left.
\<close>

fun running_paths :: "string \<Rightarrow> string list \<Rightarrow> string list" where
  "running_paths current_path [] = []"
| "running_paths current_path (part # parts) =
     (if part \<noteq> [] then
        (let current_path = (if current_path \<noteq> [] then current_path @ ''/'' @ part else part)
         in current_path # running_paths current_path parts)
      else running_paths current_path parts)"

definition mkd_paths :: "(cmd \<times> ftp_error option) list \<Rightarrow> string list" where
  "mkd_paths tr = concat (map (\<lambda>(c, r). case c of MKD p \<Rightarrow> [p] | _ \<Rightarrow> []) tr)"

definition cwd_paths :: "(cmd \<times> ftp_error option) list \<Rightarrow> string list" where
  "cwd_paths tr = concat (map (\<lambda>(c, r). case c of CWD p \<Rightarrow> [p] | _ \<Rightarrow> []) tr)"

section \<open>Tree uploader\<close>

text \<open>
  \<open>upload_file\<close>: \<open>open\<close> raises for an unreadable file, before any command is sent; every
  exception of the transfer is caught and turned into the result \<open>False\<close>.
\<close>

definition upload_file ::
  "'s ftp \<Rightarrow> local_path \<Rightarrow> bool \<Rightarrow> string \<Rightarrow> 's world \<Rightarrow> bool \<times> 's world" where
  "upload_file ftp local_file readable remote_file w =
     (if \<not> readable then (False, print (FailedToUpload (path_str local_file)) w)
      else (case storbinary ftp remote_file w of
              (None, w1) \<Rightarrow> (True, print (Uploaded (name local_file) remote_file) w1)
            | (Some e, w1) \<Rightarrow> (False, print (FailedToUpload (path_str local_file)) w1)))"

text \<open>
  \<open>upload_directory\<close>: the loop over \<open>local_dir.iterdir()\<close> with the local
  \<open>uploaded_count\<close>. The first argument after the patterns is what is left of the
  listing. An exception other than \<open>error_perm\<close> from \<open>ftp.mkd\<close> leaves the method, and
  so does the \<open>OSError\<close> of \<open>item.is_file()\<close> on an entry that cannot be examined, and
  the \<open>OSError\<close> of \<open>iterdir()\<close> at the start of the recursive call on a directory
  that cannot be listed, which comes after the \<open>MKD\<close> of that directory.
\<close>

fun upload_directory ::
  "'s ftp \<Rightarrow> string list \<Rightarrow> local_node list \<Rightarrow> string \<Rightarrow> nat \<Rightarrow> 's world
     \<Rightarrow> (ftp_error + nat) \<times> 's world" where
  "upload_directory ftp patterns [] remote_dir uploaded_count w = (Inr uploaded_count, w)"
| "upload_directory ftp patterns (item # items) remote_dir uploaded_count w =
     (if should_exclude patterns (node_path item)
      then upload_directory ftp patterns items remote_dir uploaded_count
             (print (Skipped (name (node_path item))) w)
      else
        (let remote_item_path = remote_dir @ ''/'' @ name (node_path item) in
         case item of
           LFile p readable \<Rightarrow>
             (case upload_file ftp p readable remote_item_path w of
                (True, w1) \<Rightarrow> upload_directory ftp patterns items remote_dir (uploaded_count + 1) w1
              | (False, w1) \<Rightarrow> upload_directory ftp patterns items remote_dir uploaded_count w1)
         | LDir p children \<Rightarrow>
             (case mkd ftp remote_item_path w of
                (Some OtherError, w1) \<Rightarrow> (Inl OtherError, w1)
              | (r, w1) \<Rightarrow>
                  (case upload_directory ftp patterns children remote_item_path 0
                          (if r = None then print (CreatedDirectory remote_item_path) w1 else w1) of
                     (Inl e, w2) \<Rightarrow> (Inl e, w2)
                   | (Inr sub_count, w2) \<Rightarrow>
                       upload_directory ftp patterns items remote_dir (uploaded_count + sub_count) w2))
         | LOther p \<Rightarrow> upload_directory ftp patterns items remote_dir uploaded_count w
         | LNoList p \<Rightarrow>
             (case mkd ftp remote_item_path w of
                (r, w1) \<Rightarrow>
                  (Inl OtherError,
                   if r = None then print (CreatedDirectory remote_item_path) w1 else w1))
         | LNoStat p \<Rightarrow> (Inl OtherError, w)))"

section \<open>Observations on a run of the uploader\<close>

text \<open>The paths of the \<open>STOR\<close> commands sent, and of those that succeeded.\<close>

definition stor_paths :: "(cmd \<times> ftp_error option) list \<Rightarrow> string list" where
  "stor_paths tr = concat (map (\<lambda>(c, r). case c of STOR p \<Rightarrow> [p] | _ \<Rightarrow> []) tr)"

definition stored :: "(cmd \<times> ftp_error option) list \<Rightarrow> string list" where
  "stored tr =
     concat (map (\<lambda>(c, r). case c of STOR p \<Rightarrow> (if r = None then [p] else []) | _ \<Rightarrow> []) tr)"

definition stor_replies :: "(cmd \<times> ftp_error option) list \<Rightarrow> ftp_error option list" where
  "stor_replies tr = concat (map (\<lambda>(c, r). case c of STOR p \<Rightarrow> [r] | _ \<Rightarrow> []) tr)"


fun remote_files :: "string list \<Rightarrow> local_node list \<Rightarrow> string \<Rightarrow> string list" where
  "remote_files patterns [] remote_dir = []"
| "remote_files patterns (item # items) remote_dir =
     (if should_exclude patterns (node_path item) then []
      else (case item of
              LFile p readable \<Rightarrow> (if readable then [remote_dir @ ''/'' @ name p] else [])
            | LDir p children \<Rightarrow> remote_files patterns children (remote_dir @ ''/'' @ name p)
            | _ \<Rightarrow> []))
     @ remote_files patterns items remote_dir"

text \<open>
  A listing the walk can go through: no entry that is reached (not excluded, and not
  below an excluded directory) fails to be examined or listed.
\<close>

fun walkable :: "string list \<Rightarrow> local_node list \<Rightarrow> bool" where
  "walkable patterns [] = True"
| "walkable patterns (item # items) =
     ((should_exclude patterns (node_path item)
       \<or> (case item of
             LDir p children \<Rightarrow> walkable patterns children
           | LNoList p \<Rightarrow> False
           | LNoStat p \<Rightarrow> False
           | _ \<Rightarrow> True))
      \<and> walkable patterns items)"




text \<open>
  The remote directories a file's remote path implies below \<open>remote_dir\<close>: the proper
  prefixes of the path that end before a slash and are longer than \<open>remote_dir\<close>.
\<close>

definition implied_dirs :: "string \<Rightarrow> string \<Rightarrow> string list" where
  "implied_dirs remote_dir p =
     map (\<lambda>k. take k p) (filter (\<lambda>k. p ! k = CHR ''/'') [length remote_dir + 1 ..< length p])"

text \<open>
  Scanning the commands of a run in order. \<open>attempted_before\<close>: at every \<open>STOR\<close>, an
  \<open>MKD\<close> has been sent before for each implied directory. \<open>ready_before\<close>: at every
  \<open>STOR\<close>, each implied directory has been created (a successful \<open>MKD\<close>) or confirmed to
  exist (a successful \<open>CWD\<close>) before.
\<close>

fun attempted_before :: "string \<Rightarrow> string list \<Rightarrow> (cmd \<times> ftp_error option) list \<Rightarrow> bool" where
  "attempted_before remote_dir seen [] = True"
| "attempted_before remote_dir seen ((c, r) # tr) =
     (case c of
        MKD d \<Rightarrow> attempted_before remote_dir (d # seen) tr
      | STOR p \<Rightarrow>
          prefix (remote_dir @ ''/'') p \<and> list_all (\<lambda>d. d \<in> set seen) (implied_dirs remote_dir p)
          \<and> attempted_before remote_dir seen tr
      | _ \<Rightarrow> attempted_before remote_dir seen tr)"

fun ready_before :: "string \<Rightarrow> string list \<Rightarrow> (cmd \<times> ftp_error option) list \<Rightarrow> bool" where
  "ready_before remote_dir seen [] = True"
| "ready_before remote_dir seen ((c, r) # tr) =
     (case c of
        MKD d \<Rightarrow> ready_before remote_dir (if r = None then d # seen else seen) tr
      | CWD d \<Rightarrow> ready_before remote_dir (if r = None then d # seen else seen) tr
      | STOR p \<Rightarrow>
          prefix (remote_dir @ ''/'') p \<and> list_all (\<lambda>d. d \<in> set seen) (implied_dirs remote_dir p)
          \<and> ready_before remote_dir seen tr
      | _ \<Rightarrow> ready_before remote_dir seen tr)"

text \<open>Final name components contain no slash.\<close>

fun plain_names :: "local_node list \<Rightarrow> bool" where
  "plain_names [] = True"
| "plain_names (item # items) =
     (CHR ''/'' \<notin> set (name (node_path item))
      \<and> (case item of LDir p children \<Rightarrow> plain_names children | _ \<Rightarrow> True)
      \<and> plain_names items)"

section \<open>Remote cleaner\<close>

text \<open>
  \<open>remove_directory\<close> calls itself on what the server lists, so its depth is bounded by
  the interpreter's recursion limit only: the first argument is the depth that is left.
  At depth \<open>0\<close> the call exceeds the limit inside the \<open>try\<close>, and the \<open>RecursionError\<close> is
  swallowed by the bare \<open>except: pass\<close> like every other exception of the body.
  \<open>remove_directory_loop\<close> is its \<open>for\<close> loop.
\<close>

fun remove_directory ::
    "nat \<Rightarrow> 's ftp \<Rightarrow> string \<Rightarrow> 's world \<Rightarrow> ftp_error option \<times> 's world"
  and remove_directory_loop ::
    "nat \<Rightarrow> 's ftp \<Rightarrow> string list \<Rightarrow> 's world \<Rightarrow> ftp_error option \<times> 's world" where
  "remove_directory 0 ftp path w = (None, w)"
| "remove_directory (Suc depth) ftp path w =
     (case
        (case cwd ftp path w of
           (Some e, w1) \<Rightarrow> (Some e, w1)
         | (None, w1) \<Rightarrow>
             (case retrlines_nlst ftp w1 of
                (Inl e, w2) \<Rightarrow> (Some e, w2)
              | (Inr items, w2) \<Rightarrow>
                  (case remove_directory_loop depth ftp items w2 of
                     (Some e, w3) \<Rightarrow> (Some e, w3)
                   | (None, w3) \<Rightarrow>
                       (case cwd ftp ''..'' w3 of
                          (Some e, w4) \<Rightarrow> (Some e, w4)
                        | (None, w4) \<Rightarrow> rmd ftp path w4))))
      of (raised, w5) \<Rightarrow> (None, w5))"
| "remove_directory_loop depth ftp [] w = (None, w)"
| "remove_directory_loop depth ftp (item # items) w =
     (if item \<noteq> ''.'' \<and> item \<noteq> ''..'' then
        (case delete ftp item w of
           (None, w1) \<Rightarrow> remove_directory_loop depth ftp items w1
         | (Some OtherError, w1) \<Rightarrow> (Some OtherError, w1)
         | (Some ErrorPerm, w1) \<Rightarrow>
             (case remove_directory depth ftp item w1 of
                (Some e, w2) \<Rightarrow> (Some e, w2)
              | (None, w2) \<Rightarrow> remove_directory_loop depth ftp items w2))
      else remove_directory_loop depth ftp items w)"

text \<open>
  The \<open>for\<close> loop of \<open>clean_remote_directory\<close>. The inner handler is a bare \<open>except\<close>: it
  prints \<open>Could not delete\<close> for whatever \<open>remove_directory\<close> raises.
\<close>

fun clean_remote_directory_loop ::
  "nat \<Rightarrow> 's ftp \<Rightarrow> string list \<Rightarrow> 's world \<Rightarrow> ftp_error option \<times> 's world" where
  "clean_remote_directory_loop depth ftp [] w = (None, w)"
| "clean_remote_directory_loop depth ftp (item # items) w =
     (if item \<noteq> ''.'' \<and> item \<noteq> ''..'' then
        (case delete ftp item w of
           (None, w1) \<Rightarrow> clean_remote_directory_loop depth ftp items (print (DeletedFile item) w1)
         | (Some OtherError, w1) \<Rightarrow> (Some OtherError, w1)
         | (Some ErrorPerm, w1) \<Rightarrow>
             (case remove_directory depth ftp item w1 of
                (None, w2) \<Rightarrow>
                  clean_remote_directory_loop depth ftp items (print (DeletedDirectory item) w2)
              | (Some e, w2) \<Rightarrow>
                  clean_remote_directory_loop depth ftp items (print (CouldNotDelete item) w2)))
      else clean_remote_directory_loop depth ftp items w)"

text \<open>
  \<open>clean_remote_directory\<close>: the body of the \<open>try\<close>, then the handler of
  \<open>ftplib.error_perm\<close>; any other exception leaves the method.
\<close>

definition clean_remote_directory ::
  "nat \<Rightarrow> 's ftp \<Rightarrow> string \<Rightarrow> 's world \<Rightarrow> ftp_error option \<times> 's world" where
  "clean_remote_directory depth ftp remote_path w =
     (case
        (case cwd ftp remote_path w of
           (Some e, w1) \<Rightarrow> (Some e, w1)
         | (None, w1) \<Rightarrow>
             (case retrlines_nlst ftp w1 of
                (Inl e, w2) \<Rightarrow> (Some e, w2)
              | (Inr items, w2) \<Rightarrow>
                  (case clean_remote_directory_loop depth ftp items w2 of
                     (Some e, w3) \<Rightarrow> (Some e, w3)
                   | (None, w3) \<Rightarrow> cwd ftp ''/'' w3)))
      of (Some ErrorPerm, w4) \<Rightarrow> (None, print (DoesNotExistYet remote_path) w4)
       | (Some OtherError, w4) \<Rightarrow> (Some OtherError, w4)
       | (None, w4) \<Rightarrow> (None, w4))"

text \<open>The entries of a listing the cleaner acts on, and the paths of the \<open>DELE\<close> commands sent.\<close>

definition real_entries :: "string list \<Rightarrow> string list" where
  "real_entries items = filter (\<lambda>item. item \<noteq> ''.'' \<and> item \<noteq> ''..'') items"

definition dele_paths :: "(cmd \<times> ftp_error option) list \<Rightarrow> string list" where
  "dele_paths tr = concat (map (\<lambda>(c, r). case c of DELE p \<Rightarrow> [p] | _ \<Rightarrow> []) tr)"

section \<open>Deployment orchestrator\<close>

text \<open>The attributes of \<open>AppDeployer\<close> the methods read, and \<open>__init__\<close>.\<close>

record app_deployer =
  host :: string
  username :: string
  password :: string
  remote_app_path :: string
  upload_items :: "string list"
  exclude_patterns :: "string list"

definition init :: "string \<Rightarrow> string \<Rightarrow> string \<Rightarrow> app_deployer" where
  "init env_host env_username env_password =
     \<lparr>host = env_host, username = env_username, password = env_password,
      remote_app_path = ''bobd77.sg-host.com/public_html/app'',
      upload_items = [''index.html'', ''favicon.ico'', ''src/'', ''styles/''],
      exclude_patterns = default_exclude_patterns\<rparr>"

definition check_credentials :: "app_deployer \<Rightarrow> bool" where
  "check_credentials self = (host self \<noteq> [] \<and> username self \<noteq> [] \<and> password self \<noteq> [])"

text \<open>
  The \<open>for\<close> loop of \<open>deploy\<close> over \<open>self.upload_items\<close>, with the local
  \<open>total_uploaded\<close>. \<open>local_item\<close> is the local file system under \<open>self.local_app_dir\<close>:
  \<open>None\<close> where \<open>local_item.exists()\<close> is false, \<open>LNoStat\<close> where it raises.
\<close>

fun deploy_loop ::
  "app_deployer \<Rightarrow> 's ftp \<Rightarrow> (string \<Rightarrow> local_node option) \<Rightarrow> string list \<Rightarrow> nat \<Rightarrow> 's world
     \<Rightarrow> (ftp_error + nat) \<times> 's world" where
  "deploy_loop self ftp local_item [] total_uploaded w = (Inr total_uploaded, w)"
| "deploy_loop self ftp local_item (item_name # item_names) total_uploaded w =
     (case local_item item_name of
        None \<Rightarrow>
          deploy_loop self ftp local_item item_names total_uploaded
            (print (SkippedMissingItem item_name) w)
      | Some item \<Rightarrow>
          (let remote_item_path = remote_app_path self @ ''/'' @ item_name in
           case item of
             LFile p readable \<Rightarrow>
               (case upload_file ftp p readable remote_item_path w of
                  (True, w1) \<Rightarrow> deploy_loop self ftp local_item item_names (total_uploaded + 1) w1
                | (False, w1) \<Rightarrow> deploy_loop self ftp local_item item_names total_uploaded w1)
           | LDir p children \<Rightarrow>
               (case mkd ftp remote_item_path w of
                  (Some OtherError, w1) \<Rightarrow> (Inl OtherError, w1)
                | (r, w1) \<Rightarrow>
                    (case upload_directory ftp (exclude_patterns self) children remote_item_path 0
                            (if r = None then print (CreatedDirectory remote_item_path) w1 else w1) of
                       (Inl e, w2) \<Rightarrow> (Inl e, w2)
                     | (Inr count, w2) \<Rightarrow>
                         deploy_loop self ftp local_item item_names (total_uploaded + count) w2))
           | LOther p \<Rightarrow> deploy_loop self ftp local_item item_names total_uploaded w
           | LNoList p \<Rightarrow>
               (case mkd ftp remote_item_path w of
                  (r, w1) \<Rightarrow>
                    (Inl OtherError,
                     if r = None then print (CreatedDirectory remote_item_path) w1 else w1))
           | LNoStat p \<Rightarrow> (Inl OtherError, w)))"

text \<open>The body of the \<open>with ftplib.FTP(self.host) as ftp\<close> statement.\<close>

definition deploy_session ::
  "app_deployer \<Rightarrow> 's ftp \<Rightarrow> (string \<Rightarrow> local_node option) \<Rightarrow> nat \<Rightarrow> bool \<Rightarrow> 's world
     \<Rightarrow> (ftp_error + nat) \<times> 's world" where
  "deploy_session self ftp local_item depth clean w =
     (case login ftp (username self) (password self) (print (Connecting (host self)) w) of
        (Some e, w1) \<Rightarrow> (Inl e, w1)
      | (None, w1) \<Rightarrow>
          (case create_remote_directory ftp (remote_app_path self)
                  (print (CreatingRemoteDirectory (remote_app_path self))
                     (print ConnectedSuccessfully w1)) of
             (Some e, w2) \<Rightarrow> (Inl e, w2)
           | (None, w2) \<Rightarrow>
               (case (if clean
                      then clean_remote_directory depth ftp (remote_app_path self)
                             (print CleaningRemoteDirectory w2)
                      else (None, w2)) of
                  (Some e, w3) \<Rightarrow> (Inl e, w3)
                | (None, w3) \<Rightarrow>
                    (case deploy_loop self ftp local_item (upload_items self) 0 w3 of
                       (Inl e, w4) \<Rightarrow> (Inl e, w4)
                     | (Inr total_uploaded, w4) \<Rightarrow>
                         (Inr total_uploaded, print (DeploymentComplete total_uploaded) w4)))))"

text \<open>
  \<open>deploy\<close> returns the success flag, the lines printed, and the commands sent with
  their outcome. \<open>depth\<close> is the recursion depth left for \<open>remove_directory\<close>. The
  \<open>return True\<close> is inside the \<open>with\<close> block, so \<open>FTP.__exit__\<close> runs before \<open>deploy\<close>
  returns, as it does when the body raises; an exception that leaves it replaces the
  outcome of the body and is caught by \<open>except ftplib.all_errors\<close>.
\<close>

definition deploy ::
  "app_deployer \<Rightarrow> 's ftp \<Rightarrow> (string \<Rightarrow> local_node option) \<Rightarrow> nat \<Rightarrow> bool
     \<Rightarrow> bool \<times> event list \<times> (cmd \<times> ftp_error option) list" where
  "deploy self ftp local_item depth clean =
     (if \<not> check_credentials self then (False, [CredentialsNotConfigured], [])
      else
        (case ftp_connect ftp (host self) of
           Inl e \<Rightarrow> (False, [StartingDeployment, FtpError e], [])
         | Inr s \<Rightarrow>
             (case deploy_session self ftp local_item depth clean
                     \<lparr>srv = s, trace = [], out = [StartingDeployment]\<rparr> of
                (res, w) \<Rightarrow>
                  (case leave ftp w of
                     (Some e, w') \<Rightarrow> (False, out w' @ [FtpError e], trace w')
                   | (None, w') \<Rightarrow>
                       (case res of
                          Inl e \<Rightarrow> (False, out w' @ [FtpError e], trace w')
                        | Inr total_uploaded \<Rightarrow> (True, out w', trace w'))))))"




section \<open>A small remote store\<close>

text \<open>
  A remote store to run the deployer against: directories and files by their absolute
  path (a list of components), the working directory, and the paths on which the server
  refuses to create, delete or store. Every refusal is a permission error.
\<close>

record store =
  store_cwd :: "string list"
  store_dirs :: "string list list"
  store_files :: "string list list"
  store_denied :: "string list list"

fun walk :: "string list \<Rightarrow> string list \<Rightarrow> string list" where
  "walk cur [] = cur"
| "walk cur (seg # segs) =
     (if seg = [] \<or> seg = ''.'' then walk cur segs
      else if seg = ''..'' then walk (butlast cur) segs
      else walk (cur @ [seg]) segs)"

definition resolve :: "store \<Rightarrow> string \<Rightarrow> string list" where
  "resolve s p = walk (if prefix ''/'' p then [] else store_cwd s) (split_slash p)"

definition is_dir :: "store \<Rightarrow> string list \<Rightarrow> bool" where
  "is_dir s t = (t = [] \<or> t \<in> set (store_dirs s))"

definition store_mkd :: "string \<Rightarrow> store \<Rightarrow> ftp_error option \<times> store" where
  "store_mkd p s =
     (let t = resolve s p in
      if is_dir s t \<or> t \<in> set (store_files s) \<or> \<not> is_dir s (butlast t) \<or> t \<in> set (store_denied s)
      then (Some ErrorPerm, s)
      else (None, s\<lparr>store_dirs := store_dirs s @ [t]\<rparr>))"

definition store_chdir :: "string \<Rightarrow> store \<Rightarrow> ftp_error option \<times> store" where
  "store_chdir p s =
     (let t = resolve s p in
      if is_dir s t then (None, s\<lparr>store_cwd := t\<rparr>) else (Some ErrorPerm, s))"

definition store_delete :: "string \<Rightarrow> store \<Rightarrow> ftp_error option \<times> store" where
  "store_delete p s =
     (let t = resolve s p in
      if t \<in> set (store_files s) \<and> t \<notin> set (store_denied s)
      then (None, s\<lparr>store_files := removeAll t (store_files s)\<rparr>)
      else (Some ErrorPerm, s))"

definition store_rmd :: "string \<Rightarrow> store \<Rightarrow> ftp_error option \<times> store" where
  "store_rmd p s =
     (let t = resolve s p in
      if t \<in> set (store_dirs s) \<and> t \<notin> set (store_denied s)
         \<and> filter (\<lambda>x. x \<noteq> [] \<and> butlast x = t) (store_dirs s @ store_files s) = []
      then (None, s\<lparr>store_dirs := removeAll t (store_dirs s)\<rparr>)
      else (Some ErrorPerm, s))"

definition store_nlst :: "store \<Rightarrow> (ftp_error + string list) \<times> store" where
  "store_nlst s =
     (Inr (map last (filter (\<lambda>x. x \<noteq> [] \<and> butlast x = store_cwd s) (store_dirs s @ store_files s))), s)"

definition store_stor :: "string \<Rightarrow> store \<Rightarrow> ftp_error option \<times> store" where
  "store_stor p s =
     (let t = resolve s p in
      if t \<noteq> [] \<and> is_dir s (butlast t) \<and> \<not> is_dir s t \<and> t \<notin> set (store_denied s)
      then (None, s\<lparr>store_files := List.insert t (store_files s)\<rparr>)
      else (Some ErrorPerm, s))"

definition store_pwd :: "store \<Rightarrow> string" where
  "store_pwd s = ''/'' @ join_slash (store_cwd s)"

text \<open>The session a login to the store in state \<open>s\<close> gives.\<close>

definition store_ftp :: "store \<Rightarrow> store ftp" where
  "store_ftp s =
     \<lparr>ftp_connect = (\<lambda>h. Inr s), ftp_login = (\<lambda>user passwd s'. (None, s')),
      ftp_mkd = store_mkd, ftp_cwd = store_chdir, ftp_delete = store_delete,
      ftp_rmd = store_rmd, ftp_nlst = store_nlst, ftp_stor = store_stor,
      ftp_exit = (\<lambda>s'. (None, s')), ftp_pwd = store_pwd\<rparr>"

definition start :: "store \<Rightarrow> store world" where
  "start s = \<lparr>srv = s, trace = [], out = []\<rparr>"

section \<open>Sample inputs\<close>

definition empty_store :: store where
  "empty_store = \<lparr>store_cwd = [], store_dirs = [], store_files = [], store_denied = []\<rparr>"

text \<open>
  A store with a deployed tree under \<open>/app\<close>: the file \<open>/app/x\<close> and the file \<open>/app/d/y\<close>
  cannot be deleted.
\<close>

definition stale_store :: store where
  "stale_store =
     \<lparr>store_cwd = [], store_dirs = [[''app''], [''app'', ''d'']],
      store_files = [[''app'', ''x''], [''app'', ''d'', ''y''], [''app'', ''z'']],
      store_denied = [[''app'', ''x''], [''app'', ''d'', ''y'']]\<rparr>"

text \<open>A store whose sessions start in \<open>/home\<close>, as a login directory.\<close>

definition home_store :: store where
  "home_store =
     \<lparr>store_cwd = [''home''], store_dirs = [[''home'']], store_files = [], store_denied = []\<rparr>"

text \<open>
  A store with the directory \<open>/r\<close>, where the server refuses to store \<open>/r/b.js\<close> and to
  create \<open>/r/locked\<close>; and three local listings, one with a directory that cannot be
  listed.
\<close>

definition guarded_store :: store where
  "guarded_store =
     \<lparr>store_cwd = [], store_dirs = [[''r'']], store_files = [],
      store_denied = [[''r'', ''b.js''], [''r'', ''locked'']]\<rparr>"

definition three_files :: "local_node list" where
  "three_files =
     [LFile \<lparr>path_str = ''/site/a.js'', name = ''a.js''\<rparr> True,
      LFile \<lparr>path_str = ''/site/b.js'', name = ''b.js''\<rparr> True,
      LFile \<lparr>path_str = ''/site/c.js'', name = ''c.js''\<rparr> True]"

definition unlistable_dir :: "local_node list" where
  "unlistable_dir =
     [LFile \<lparr>path_str = ''/site/a.js'', name = ''a.js''\<rparr> True,
      LNoList \<lparr>path_str = ''/site/private'', name = ''private''\<rparr>,
      LFile \<lparr>path_str = ''/site/c.js'', name = ''c.js''\<rparr> True]"

definition locked_dir :: "local_node list" where
  "locked_dir =
     [LDir \<lparr>path_str = ''/site/locked'', name = ''locked''\<rparr>
        [LFile \<lparr>path_str = ''/site/locked/f.js'', name = ''f.js''\<rparr> True]]"


text \<open>
  Two sessions on the guarded store: one in which every \<open>MKD\<close> ends with an error that is
  not a permission error, and one on a host that cannot be reached.
\<close>

definition dropped_ftp :: "store ftp" where
  "dropped_ftp = (store_ftp guarded_store)\<lparr>ftp_mkd := (\<lambda>p s. (Some OtherError, s))\<rparr>"



text \<open>
  A local application directory: \<open>favicon.ico\<close> and \<open>styles/\<close> do not exist;
  \<open>src_children\<close> is the listing of \<open>src/\<close>.
\<close>

definition src_children :: "local_node list" where
  "src_children =
     [LFile \<lparr>path_str = ''/site/src/app.js'', name = ''app.js''\<rparr> True,
      LFile \<lparr>path_str = ''/site/src/notes.md'', name = ''notes.md''\<rparr> True,
      LDir \<lparr>path_str = ''/site/src/ui'', name = ''ui''\<rparr>
        [LFile \<lparr>path_str = ''/site/src/ui/map.js'', name = ''map.js''\<rparr> True]]"

definition sample_site :: "string \<Rightarrow> local_node option" where
  "sample_site item_name =
     (if item_name = ''index.html''
      then Some (LFile \<lparr>path_str = ''/site/index.html'', name = ''index.html''\<rparr> True)
      else if item_name = ''src/''
      then Some (LDir \<lparr>path_str = ''/site/src'', name = ''src''\<rparr> src_children)
      else None)"



text \<open>A store on which the deployment root exists.\<close>

definition app_store :: store where
  "app_store =
     \<lparr>store_cwd = [],
      store_dirs = [[''bobd77.sg-host.com''], [''bobd77.sg-host.com'', ''public_html''],
                    [''bobd77.sg-host.com'', ''public_html'', ''app'']],
      store_files = [], store_denied = []\<rparr>"

section \<open>Basic facts\<close>

lemma send_eq:
  "send c f w =
     (fst (f (srv w)), w\<lparr>srv := snd (f (srv w)), trace := trace w @ [(c, fst (f (srv w)))]\<rparr>)"
  by (simp add: send_def split_beta)

lemma cwd_paths_Nil [simp]: "cwd_paths [] = []"
  by (simp add: cwd_paths_def)

lemma cwd_paths_Cons [simp]:
  "cwd_paths ((c, r) # tr) = (case c of CWD p \<Rightarrow> [p] | _ \<Rightarrow> []) @ cwd_paths tr"
  by (simp add: cwd_paths_def)

lemma cwd_paths_append [simp]: "cwd_paths (xs @ ys) = cwd_paths xs @ cwd_paths ys"
  by (simp add: cwd_paths_def)

lemma dele_paths_Nil [simp]: "dele_paths [] = []"
  by (simp add: dele_paths_def)

lemma dele_paths_Cons [simp]:
  "dele_paths ((c, r) # tr) = (case c of DELE p \<Rightarrow> [p] | _ \<Rightarrow> []) @ dele_paths tr"
  by (simp add: dele_paths_def)

lemma dele_paths_append [simp]: "dele_paths (xs @ ys) = dele_paths xs @ dele_paths ys"
  by (simp add: dele_paths_def)

lemma mkd_paths_Nil [simp]: "mkd_paths [] = []"
  by (simp add: mkd_paths_def)

lemma mkd_paths_Cons [simp]:
  "mkd_paths ((c, r) # tr) = (case c of MKD p \<Rightarrow> [p] | _ \<Rightarrow> []) @ mkd_paths tr"
  by (simp add: mkd_paths_def)

lemma mkd_paths_append [simp]: "mkd_paths (xs @ ys) = mkd_paths xs @ mkd_paths ys"
  by (simp add: mkd_paths_def)

lemma stor_paths_Nil [simp]: "stor_paths [] = []"
  by (simp add: stor_paths_def)

lemma stor_paths_Cons [simp]:
  "stor_paths ((c, r) # tr) = (case c of STOR p \<Rightarrow> [p] | _ \<Rightarrow> []) @ stor_paths tr"
  by (simp add: stor_paths_def)

lemma stor_paths_append [simp]: "stor_paths (xs @ ys) = stor_paths xs @ stor_paths ys"
  by (simp add: stor_paths_def)

lemma stor_replies_Nil [simp]: "stor_replies [] = []"
  by (simp add: stor_replies_def)

lemma stor_replies_Cons [simp]:
  "stor_replies ((c, r) # tr) = (case c of STOR p \<Rightarrow> [r] | _ \<Rightarrow> []) @ stor_replies tr"
  by (simp add: stor_replies_def)

lemma stor_replies_append [simp]: "stor_replies (xs @ ys) = stor_replies xs @ stor_replies ys"
  by (simp add: stor_replies_def)

lemma stored_Nil [simp]: "stored [] = []"
  by (simp add: stored_def)

lemma stored_Cons [simp]:
  "stored ((c, r) # tr) =
     (case c of STOR p \<Rightarrow> (if r = None then [p] else []) | _ \<Rightarrow> []) @ stored tr"
  by (simp add: stored_def)

lemma stored_append [simp]: "stored (xs @ ys) = stored xs @ stored ys"
  by (simp add: stored_def)

lemma trace_print [simp]: "trace (print e w) = trace w"
  by (simp add: print_def)

lemma out_print [simp]: "out (print e w) = out w @ [e]"
  by (simp add: print_def)

lemma srv_print [simp]: "srv (print e w) = srv w"
  by (simp add: print_def)

lemma upload_file_effect:
  assumes "upload_file ftp p readable rp w = (ok, w1)"
  shows "trace w1 = trace w @ (if readable then [(STOR rp, fst (ftp_stor ftp rp (srv w)))] else [])"
    and "out w1 = out w @ [if ok then Uploaded (name p) rp else FailedToUpload (path_str p)]"
    and "ok \<longleftrightarrow> readable \<and> fst (ftp_stor ftp rp (srv w)) = None"
  using assms
  by (auto simp: upload_file_def storbinary_def send_eq print_def split: if_splits option.splits)

lemma mkd_effect:
  assumes "mkd ftp p w = (r, w1)"
  shows "trace w1 = trace w @ [(MKD p, r)]" and "out w1 = out w"
    and "r = fst (ftp_mkd ftp p (srv w))"
  using assms by (auto simp: mkd_def send_eq)


lemma store_delete_no_other: "fst (ftp_delete (store_ftp s0) p s) \<noteq> Some OtherError"
  by (simp add: store_ftp_def store_delete_def Let_def)




text \<open>
  One round of the loop of \<open>upload_directory\<close>: the eight ways it can go for the first
  item of the listing.
\<close>

lemma upload_directory_Cons_cases [consumes 1, case_names skip regular mkd_raises sub_raises directory neither
    unlistable unexaminable]:
  assumes "upload_directory ftp patterns (item # items) rd cnt w = (res, w')"
  obtains
    "should_exclude patterns (node_path item)"
    "upload_directory ftp patterns items rd cnt (print (Skipped (name (node_path item))) w) = (res, w')"
  | p readable ok w1 where
    "item = LFile p readable" "\<not> should_exclude patterns p"
    "upload_file ftp p readable (rd @ ''/'' @ name p) w = (ok, w1)"
    "upload_directory ftp patterns items rd (if ok then cnt + 1 else cnt) w1 = (res, w')"
  | p children where
    "item = LDir p children" "\<not> should_exclude patterns p"
    "mkd ftp (rd @ ''/'' @ name p) w = (Some OtherError, w')" "res = Inl OtherError"
  | p children r w1 e where
    "item = LDir p children" "\<not> should_exclude patterns p"
    "mkd ftp (rd @ ''/'' @ name p) w = (r, w1)" "r \<noteq> Some OtherError"
    "upload_directory ftp patterns children (rd @ ''/'' @ name p) 0
       (if r = None then print (CreatedDirectory (rd @ ''/'' @ name p)) w1 else w1) = (Inl e, w')"
    "res = Inl e"
  | p children r w1 sub w2 where
    "item = LDir p children" "\<not> should_exclude patterns p"
    "mkd ftp (rd @ ''/'' @ name p) w = (r, w1)" "r \<noteq> Some OtherError"
    "upload_directory ftp patterns children (rd @ ''/'' @ name p) 0
       (if r = None then print (CreatedDirectory (rd @ ''/'' @ name p)) w1 else w1) = (Inr sub, w2)"
    "upload_directory ftp patterns items rd (cnt + sub) w2 = (res, w')"
  | p where
    "item = LOther p" "\<not> should_exclude patterns p"
    "upload_directory ftp patterns items rd cnt w = (res, w')"
  | p r w1 where
    "item = LNoList p" "\<not> should_exclude patterns p"
    "mkd ftp (rd @ ''/'' @ name p) w = (r, w1)" "res = Inl OtherError"
    "w' = (if r = None then print (CreatedDirectory (rd @ ''/'' @ name p)) w1 else w1)"
  | p where
    "item = LNoStat p" "\<not> should_exclude patterns p" "res = Inl OtherError" "w' = w"
proof (cases "should_exclude patterns (node_path item)")
  case True
  with assms that(1) show ?thesis by simp
next
  case False
  show ?thesis
  proof (cases item)
    case (LFile p readable)
    obtain ok w1 where u: "upload_file ftp p readable (rd @ ''/'' @ name p) w = (ok, w1)"
      by (cases "upload_file ftp p readable (rd @ ''/'' @ name p) w")
    with assms False LFile have
      "upload_directory ftp patterns items rd (if ok then cnt + 1 else cnt) w1 = (res, w')"
      by (cases ok) (simp_all add: Let_def)
    with that(2) LFile False u show ?thesis by simp
  next
    case (LDir p children)
    obtain r w1 where m: "mkd ftp (rd @ ''/'' @ name p) w = (r, w1)"
      by (cases "mkd ftp (rd @ ''/'' @ name p) w")
    show ?thesis
    proof (cases "r = Some OtherError")
      case True
      with assms False LDir m that(3) show ?thesis by (simp add: Let_def)
    next
      case nab: False
      obtain res1 w2 where s: "upload_directory ftp patterns children (rd @ ''/'' @ name p) 0
         (if r = None then print (CreatedDirectory (rd @ ''/'' @ name p)) w1 else w1) = (res1, w2)"
        by (cases "upload_directory ftp patterns children (rd @ ''/'' @ name p) 0
         (if r = None then print (CreatedDirectory (rd @ ''/'' @ name p)) w1 else w1)")
      show ?thesis
      proof (cases res1)
        case (Inl e)
        with assms False LDir m nab s have "res = Inl e" "w' = w2"
          by (auto simp: Let_def split: option.splits ftp_error.splits)
        with that(4) [of p children r w1 e] LDir False m nab s Inl show ?thesis by simp
      next
        case (Inr sub)
        with assms False LDir m nab s have
          "upload_directory ftp patterns items rd (cnt + sub) w2 = (res, w')"
          by (auto simp: Let_def split: option.splits ftp_error.splits)
        with that(5) [of p children r w1 sub w2] LDir False m nab s Inr show ?thesis by simp
      qed
    qed
  next
    case (LOther p)
    with assms False that(6) show ?thesis by (simp add: Let_def)
  next
    case (LNoList p)
    obtain r w1 where m: "mkd ftp (rd @ ''/'' @ name p) w = (r, w1)"
      by (cases "mkd ftp (rd @ ''/'' @ name p) w")
    with assms False LNoList that(7) [of p r w1] show ?thesis by (auto simp: Let_def)
  next
    case (LNoStat p)
    with assms False that(8) show ?thesis by (simp add: Let_def)
  qed
qed

section \<open>Exclusion matcher: the policy\<close>

text \<open>
  C3. \<open>should_exclude\<close> is a function of the pattern list and the path alone (it takes and
  returns no session or output state, so it is deterministic and has no side effect), and
  it returns true exactly when the documented three-step policy does.
\<close>

theorem should_exclude_policy:
  "should_exclude patterns path = exclusion_policy patterns path"
  by (induction patterns) (auto simp: exclusion_policy_def)

theorem should_exclude_policy_witness:
  "should_exclude default_exclude_patterns \<lparr>path_str = ''/app/src/notes.md'', name = ''notes.md''\<rparr>
   \<and> exclusion_policy default_exclude_patterns \<lparr>path_str = ''/app/src/notes.md'', name = ''notes.md''\<rparr>
   \<and> \<not> should_exclude default_exclude_patterns \<lparr>path_str = ''/app/src/cmd'', name = ''cmd''\<rparr>
   \<and> \<not> exclusion_policy default_exclude_patterns \<lparr>path_str = ''/app/src/cmd'', name = ''cmd''\<rparr>"
proof -
  have a: "should_exclude default_exclude_patterns \<lparr>path_str = ''/app/src/notes.md'', name = ''notes.md''\<rparr>"
    by (simp add: default_exclude_patterns_def suffix_to_prefix)
  have b: "\<not> should_exclude default_exclude_patterns \<lparr>path_str = ''/app/src/cmd'', name = ''cmd''\<rparr>"
    by (simp add: default_exclude_patterns_def suffix_to_prefix sublist_Cons_right)
  from a b show ?thesis
    using should_exclude_policy [of default_exclude_patterns "\<lparr>path_str = ''/app/src/notes.md'', name = ''notes.md''\<rparr>"]
      should_exclude_policy [of default_exclude_patterns "\<lparr>path_str = ''/app/src/cmd'', name = ''cmd''\<rparr>"]
    by simp
qed


section \<open>Remote directory ensurer: the prefixes created\<close>

lemma take_all_ex: "\<exists>k. xs = take k xs"
  by (rule exI [of _ "length xs"]) simp

lemma take_Cons_ex: "ys = take k xs \<Longrightarrow> \<exists>j. x # ys = take j (x # xs)"
  by (rule exI [of _ "Suc k"]) simp

lemma take_one_ex: "\<exists>j. [x] = take j (x # xs)"
  by (rule exI [of _ "Suc 0"]) simp

lemma loop_mkd_paths:
  "create_remote_directory_loop ftp parts cur w = (r, w') \<Longrightarrow>
     (\<exists>k. mkd_paths (trace w') = mkd_paths (trace w) @ take k (running_paths cur parts))
     \<and> (r = None \<longrightarrow> mkd_paths (trace w') = mkd_paths (trace w) @ running_paths cur parts)"
proof (induction parts arbitrary: cur w)
  case Nil
  then show ?case by (auto intro: exI [of _ 0])
next
  case (Cons part parts)
  show ?case
  proof (cases "part = []")
    case True
    with Cons show ?thesis by simp
  next
    case False
    define c where "c = (if cur \<noteq> [] then cur @ ''/'' @ part else part)"
    have rp: "running_paths cur (part # parts) = c # running_paths c parts"
      using False by (simp add: c_def Let_def)
    obtain r1 w1 where m: "mkd ftp c w = (r1, w1)" by (cases "mkd ftp c w")
    then have t1: "trace w1 = trace w @ [(MKD c, r1)]"
      by (auto simp: mkd_def send_eq)
    show ?thesis
    proof (cases r1)
      case None
      with Cons.prems False m have
        "create_remote_directory_loop ftp parts c (print (CreatedDirectory c) w1) = (r, w')"
        by (simp add: c_def Let_def)
      from Cons.IH [OF this] t1 show ?thesis
        unfolding rp by (auto simp: print_def intro: take_Cons_ex)
    next
      case (Some e)
      show ?thesis
      proof (cases e)
        case OtherError
        with Some Cons.prems False m have "r = Some OtherError" "w' = w1"
          by (simp_all add: c_def Let_def)
        with t1 show ?thesis unfolding rp by (auto intro: take_one_ex)
      next
        case ErrorPerm
        obtain r2 w2 where c2: "cwd ftp c w1 = (r2, w2)" by (cases "cwd ftp c w1")
        then have t2: "trace w2 = trace w1 @ [(CWD c, r2)]"
          by (auto simp: cwd_def send_eq)
        obtain r3 w3 where c3: "cwd ftp ''/'' w2 = (r3, w3)" by (cases "cwd ftp ''/'' w2")
        then have t3: "trace w3 = trace w2 @ [(CWD ''/'', r3)]"
          by (auto simp: cwd_def send_eq)
        show ?thesis
        proof (cases "r2 = None \<and> r3 = None")
          case True
          with ErrorPerm Some Cons.prems False m c2 c3 have
            "create_remote_directory_loop ftp parts c w3 = (r, w')"
            by (simp add: c_def Let_def)
          from Cons.IH [OF this] t1 t2 t3 show ?thesis
            unfolding rp by (auto intro: take_Cons_ex)
        next
          case False
          with ErrorPerm Some Cons.prems \<open>part \<noteq> []\<close> m c2 c3 have
            "r \<noteq> None \<and> (trace w' = trace w2 \<or> trace w' = trace w3)"
            by (auto simp: c_def Let_def print_def split: option.splits ftp_error.splits)
          with t1 t2 t3 show ?thesis unfolding rp by (auto intro: take_one_ex)
        qed
      qed
    qed
  qed
qed

lemma running_paths_filter:
  "running_paths cur (filter (\<lambda>seg. seg \<noteq> []) parts) = running_paths cur parts"
  by (induction parts arbitrary: cur) (simp_all add: Let_def)

lemma split_slash_not_Nil [simp]: "split_slash s \<noteq> []"
  by (induction s) (auto split: list.splits)

lemma split_slash_snoc_slash: "split_slash (s @ ''/'') = split_slash s @ [[]]"
  by (induction s) (auto split: list.splits)

lemma segments_drop_leading:
  "filter (\<lambda>seg. seg \<noteq> []) (split_slash (dropWhile (\<lambda>c. c = CHR ''/'') s))
     = filter (\<lambda>seg. seg \<noteq> []) (split_slash s)"
  by (induction s) auto

lemma segments_drop_trailing:
  "filter (\<lambda>seg. seg \<noteq> []) (split_slash (rev (dropWhile (\<lambda>c. c = CHR ''/'') (rev s))))
     = filter (\<lambda>seg. seg \<noteq> []) (split_slash s)"
proof (induction s rule: rev_induct)
  case Nil
  then show ?case by simp
next
  case (snoc c s)
  show ?case
  proof (cases "c = CHR ''/''")
    case True
    then show ?thesis using snoc split_slash_snoc_slash [of s] by simp
  next
    case False
    then show ?thesis by simp
  qed
qed

lemma segments_strip:
  "filter (\<lambda>seg. seg \<noteq> []) (split_slash (strip_slashes path))
     = filter (\<lambda>seg. seg \<noteq> []) (split_slash path)"
  by (simp add: strip_slashes_def segments_drop_trailing segments_drop_leading)

lemma join_slash_Cons: "pre \<noteq> [] \<Longrightarrow> join_slash (seg # pre) = seg @ ''/'' @ join_slash pre"
  by (cases pre) simp_all

lemma running_paths_from:
  "cur \<noteq> [] \<Longrightarrow> [] \<notin> set segs \<Longrightarrow>
   running_paths cur segs = map (\<lambda>pre. cur @ ''/'' @ join_slash pre) (tl (prefixes segs))"
proof (induction segs arbitrary: cur)
  case Nil
  then show ?case by simp
next
  case (Cons seg segs)
  have "running_paths cur (seg # segs) = (cur @ ''/'' @ seg) # running_paths (cur @ ''/'' @ seg) segs"
    using Cons.prems by (auto simp: Let_def)
  also have "running_paths (cur @ ''/'' @ seg) segs
      = map (\<lambda>pre. (cur @ ''/'' @ seg) @ ''/'' @ join_slash pre) (tl (prefixes segs))"
    using Cons.prems by (intro Cons.IH) auto
  finally show ?case
    by (cases segs) (simp_all add: comp_def join_slash_Cons)
qed

lemma running_paths_start:
  "[] \<notin> set segs \<Longrightarrow> running_paths [] segs = map join_slash (tl (prefixes segs))"
proof (cases segs)
  case Nil
  then show ?thesis by simp
next
  case (Cons seg rest)
  assume ne: "[] \<notin> set segs"
  with Cons have "running_paths [] segs = seg # running_paths seg rest"
    by (auto simp: Let_def)
  also have "running_paths seg rest = map (\<lambda>pre. seg @ ''/'' @ join_slash pre) (tl (prefixes rest))"
    using ne Cons by (intro running_paths_from) auto
  finally show ?thesis
    using Cons by (cases rest) (simp_all add: comp_def join_slash_Cons)
qed

lemma running_paths_accumulated:
  "running_paths [] (split_slash (strip_slashes path)) = accumulated_prefixes path"
proof -
  have "running_paths [] (split_slash (strip_slashes path))
      = running_paths [] (filter (\<lambda>seg. seg \<noteq> []) (split_slash (strip_slashes path)))"
    by (simp add: running_paths_filter)
  also have "\<dots> = running_paths [] (filter (\<lambda>seg. seg \<noteq> []) (split_slash path))"
    by (simp add: segments_strip)
  also have "\<dots> = accumulated_prefixes path"
    unfolding accumulated_prefixes_def by (rule running_paths_start) simp
  finally show ?thesis .
qed

text \<open>
  C6. The \<open>MKD\<close> commands \<open>create_remote_directory\<close> sends are the accumulated prefixes of
  the non-empty segments of the path, shortest first: all of them when the call returns
  normally, and an initial run of them when an exception ends the call early. Empty
  segments from leading, trailing or repeated slashes are discarded.
\<close>

theorem create_remote_directory_prefixes:
  assumes "create_remote_directory ftp path w = (r, w')"
  shows "(\<exists>k. mkd_paths (trace w') = mkd_paths (trace w) @ take k (accumulated_prefixes path))
     \<and> (r = None \<longrightarrow> mkd_paths (trace w') = mkd_paths (trace w) @ accumulated_prefixes path)"
  using loop_mkd_paths [of ftp "split_slash (strip_slashes path)" "[]" w r w'] assms
  by (simp add: create_remote_directory_def running_paths_accumulated)

theorem create_remote_directory_prefixes_witness:
  "fst (create_remote_directory (store_ftp empty_store) ''/a//b/c/'' (start empty_store)) = None
   \<and> accumulated_prefixes ''/a//b/c/'' = [''a'', ''a/b'', ''a/b/c'']
   \<and> mkd_paths (trace (snd (create_remote_directory (store_ftp empty_store) ''/a//b/c/''
                                (start empty_store)))) = [''a'', ''a/b'', ''a/b/c'']"
proof -
  have r: "fst (create_remote_directory (store_ftp empty_store) ''/a//b/c/'' (start empty_store)) = None"
    by code_simp
  have p: "accumulated_prefixes ''/a//b/c/'' = [''a'', ''a/b'', ''a/b/c'']"
    by code_simp
  have t: "mkd_paths (trace (start empty_store)) = []"
    by (simp add: start_def)
  from create_remote_directory_prefixes [OF prod.collapse [symmetric],
      of "store_ftp empty_store" "''/a//b/c/''" "start empty_store"]
  show ?thesis using r p t by simp
qed

section \<open>Remote cleaner: a target that does not exist\<close>

text \<open>
  C8. When the first change of working directory to the target is refused with a
  permission error, \<open>clean_remote_directory\<close> returns normally: the refused \<open>CWD\<close> is the
  only command sent (no deletion), one line is printed, and no exception reaches
  \<open>deploy\<close>.
\<close>

theorem clean_missing_directory:
  assumes "fst (ftp_cwd ftp remote_path (srv w)) = Some ErrorPerm"
  shows "clean_remote_directory depth ftp remote_path w =
           (None, w\<lparr>srv := snd (ftp_cwd ftp remote_path (srv w)),
                    trace := trace w @ [(CWD remote_path, Some ErrorPerm)],
                    out := out w @ [DoesNotExistYet remote_path]\<rparr>)"
  using assms by (simp add: clean_remote_directory_def cwd_def send_eq print_def)

theorem clean_missing_directory_witness:
  "fst (ftp_cwd (store_ftp stale_store) ''nope'' (srv (start stale_store))) = Some ErrorPerm
   \<and> clean_remote_directory 10 (store_ftp stale_store) ''nope'' (start stale_store) =
       (None, \<lparr>srv = stale_store, trace = [(CWD ''nope'', Some ErrorPerm)],
               out = [DoesNotExistYet ''nope'']\<rparr>)"
proof -
  have h: "fst (ftp_cwd (store_ftp stale_store) ''nope'' (srv (start stale_store))) = Some ErrorPerm"
    by code_simp
  have s: "snd (ftp_cwd (store_ftp stale_store) ''nope'' (srv (start stale_store))) = stale_store"
    by code_simp
  from clean_missing_directory [OF h, of 10] h s show ?thesis
    by (simp add: start_def)
qed

section \<open>Deployment orchestrator: missing items\<close>

lemma deploy_loop_all_missing:
  "list_all (\<lambda>item_name. local_item item_name = None) item_names \<Longrightarrow>
   deploy_loop self ftp local_item item_names total_uploaded w =
     (Inr total_uploaded, w\<lparr>out := out w @ map SkippedMissingItem item_names\<rparr>)"
  by (induction item_names arbitrary: w) (simp_all add: print_def)

text \<open>
  C10. A configured item whose local path does not exist is skipped: the loop goes on
  with the remaining items from the same server state, the same commands sent and the
  same total, one line printed; nothing is sent for the item, and no exception is raised
  for it, so a run of that item alone ends normally with the total unchanged.
\<close>

theorem deploy_skips_missing_item:
  assumes "local_item item_name = None"
  shows "deploy_loop self ftp local_item (item_name # item_names) total_uploaded w =
           deploy_loop self ftp local_item item_names total_uploaded
             (w\<lparr>out := out w @ [SkippedMissingItem item_name]\<rparr>)
         \<and> deploy_loop self ftp local_item [item_name] total_uploaded w =
             (Inr total_uploaded, w\<lparr>out := out w @ [SkippedMissingItem item_name]\<rparr>)"
  using assms by (simp add: print_def)

theorem deploy_skips_missing_item_witness:
  "sample_site ''favicon.ico'' = None
   \<and> deploy_loop (init ''h'' ''u'' ''p'') (store_ftp empty_store) sample_site
        [''favicon.ico'', ''index.html''] 0 (start empty_store) =
      deploy_loop (init ''h'' ''u'' ''p'') (store_ftp empty_store) sample_site
        [''index.html''] 0 ((start empty_store)\<lparr>out := [SkippedMissingItem ''favicon.ico'']\<rparr>)
   \<and> fst (deploy (init ''h'' ''u'' ''p'') (store_ftp empty_store) sample_site 10 False)"
proof -
  have h: "sample_site ''favicon.ico'' = None"
    by code_simp
  have d: "fst (deploy (init ''h'' ''u'' ''p'') (store_ftp empty_store) sample_site 10 False)"
    by code_simp
  from deploy_skips_missing_item [where local_item = sample_site and item_name = "''favicon.ico''"
      and self = "init ''h'' ''u'' ''p''" and ftp = "store_ftp empty_store"
      and item_names = "[''index.html'']" and total_uploaded = 0 and w = "start empty_store"] h d
  show ?thesis by (simp add: start_def)
qed


section \<open>Remote directory ensurer: the working directory\<close>

lemma loop_working_directory:
  assumes mkd_keeps: "\<And>p s. ftp_pwd ftp (snd (ftp_mkd ftp p s)) = ftp_pwd ftp s"
      and to_root: "\<And>s. fst (ftp_cwd ftp ''/'' s) = None \<Longrightarrow> ftp_pwd ftp (snd (ftp_cwd ftp ''/'' s)) = ''/''"
  shows "create_remote_directory_loop ftp parts cur w = (None, w') \<Longrightarrow>
     (\<exists>X. cwd_paths (trace w') = cwd_paths (trace w) @ X)
     \<and> ftp_pwd ftp (srv w') =
         (if cwd_paths (trace w') = cwd_paths (trace w) then ftp_pwd ftp (srv w) else ''/'')"
proof (induction parts arbitrary: cur w)
  case Nil
  then show ?case by simp
next
  case (Cons part parts)
  show ?case
  proof (cases "part = []")
    case True
    with Cons show ?thesis by simp
  next
    case False
    define c where "c = (if cur \<noteq> [] then cur @ ''/'' @ part else part)"
    obtain r1 w1 where m: "mkd ftp c w = (r1, w1)" by (cases "mkd ftp c w")
    then have t1: "trace w1 = trace w @ [(MKD c, r1)]" and p1: "ftp_pwd ftp (srv w1) = ftp_pwd ftp (srv w)"
      by (auto simp: mkd_def send_eq mkd_keeps)
    show ?thesis
    proof (cases r1)
      case None
      with Cons.prems False m have
        "create_remote_directory_loop ftp parts c (print (CreatedDirectory c) w1) = (None, w')"
        by (simp add: c_def Let_def)
      from Cons.IH [OF this] t1 p1 show ?thesis
        by (simp add: print_def)
    next
      case (Some e)
      obtain r2 w2 where c2: "cwd ftp c w1 = (r2, w2)" by (cases "cwd ftp c w1")
      then have t2: "trace w2 = trace w1 @ [(CWD c, r2)]"
        by (auto simp: cwd_def send_eq)
      obtain r3 w3 where c3: "cwd ftp ''/'' w2 = (r3, w3)" by (cases "cwd ftp ''/'' w2")
      then have t3: "trace w3 = trace w2 @ [(CWD ''/'', r3)]"
        and s3: "r3 = fst (ftp_cwd ftp ''/'' (srv w2))" "srv w3 = snd (ftp_cwd ftp ''/'' (srv w2))"
        by (auto simp: cwd_def send_eq)
      from Some Cons.prems False m c2 c3 have ok: "e = ErrorPerm" "r2 = None" "r3 = None"
        and rest: "create_remote_directory_loop ftp parts c w3 = (None, w')"
        by (auto simp: c_def Let_def split: option.splits ftp_error.splits)
      from ok s3 to_root have p3: "ftp_pwd ftp (srv w3) = ''/''" by simp
      from Cons.IH [OF rest] obtain X where
        X: "cwd_paths (trace w') = cwd_paths (trace w3) @ X" and
        pw: "ftp_pwd ftp (srv w') = (if cwd_paths (trace w') = cwd_paths (trace w3) then ftp_pwd ftp (srv w3) else ''/'')"
        by blast
      from pw p3 have "ftp_pwd ftp (srv w') = ''/''" by simp
      moreover from X t1 t2 t3 have "cwd_paths (trace w') = cwd_paths (trace w) @ (c # ''/'' # X)"
        by simp
      ultimately show ?thesis by auto
    qed
  qed
qed

lemma store_mkd_pwd: "ftp_pwd (store_ftp s0) (snd (ftp_mkd (store_ftp s0) p s)) = ftp_pwd (store_ftp s0) s"
  by (simp add: store_ftp_def store_mkd_def store_pwd_def Let_def)

lemma store_chdir_root:
  "ftp_pwd (store_ftp s0) (snd (ftp_cwd (store_ftp s0) ''/'' s)) = ''/''"
  by (simp add: store_ftp_def store_chdir_def store_pwd_def Let_def resolve_def is_dir_def)

text \<open>
  C1, as the code has it. On a server where \<open>MKD\<close> does not move the session and a
  successful \<open>CWD /\<close> leaves it at the root: after a call that returns normally the
  working directory is the root \<open>/\<close> when some prefix was probed by entering it (the probe
  ends with \<open>ftp.cwd('/')\<close>), and is the directory before the call when every prefix was
  created. So a session that is at the root before the call is at the root after it.
\<close>

theorem create_remote_directory_working_directory:
  assumes "\<And>p s. ftp_pwd ftp (snd (ftp_mkd ftp p s)) = ftp_pwd ftp s"
      and "\<And>s. fst (ftp_cwd ftp ''/'' s) = None \<Longrightarrow> ftp_pwd ftp (snd (ftp_cwd ftp ''/'' s)) = ''/''"
      and "create_remote_directory ftp path w = (None, w')"
  shows "ftp_pwd ftp (srv w') =
           (if cwd_paths (trace w') = cwd_paths (trace w) then ftp_pwd ftp (srv w) else ''/'')"
  using loop_working_directory [of ftp "split_slash (strip_slashes path)" "[]" w w'] assms
  by (simp add: create_remote_directory_def)

theorem create_remote_directory_working_directory_witness:
  "create_remote_directory (store_ftp empty_store) ''a/b'' 
     (snd (create_remote_directory (store_ftp empty_store) ''a/b'' (start empty_store))) = 
    (None, snd (create_remote_directory (store_ftp empty_store) ''a/b'' 
     (snd (create_remote_directory (store_ftp empty_store) ''a/b'' (start empty_store)))))
   \<and> ftp_pwd (store_ftp empty_store) (srv (snd (create_remote_directory (store_ftp empty_store) ''a/b'' 
     (snd (create_remote_directory (store_ftp empty_store) ''a/b'' (start empty_store)))))) = ''/''"
proof -
  let ?w1 = "snd (create_remote_directory (store_ftp empty_store) ''a/b'' (start empty_store))"
  let ?w2 = "snd (create_remote_directory (store_ftp empty_store) ''a/b'' ?w1)"
  have r: "create_remote_directory (store_ftp empty_store) ''a/b'' ?w1 = (None, ?w2)"
    by code_simp
  have c: "cwd_paths (trace ?w2) \<noteq> cwd_paths (trace ?w1)"
    by code_simp
  from create_remote_directory_working_directory [of "store_ftp empty_store", OF store_mkd_pwd store_chdir_root r] c
  show ?thesis using r by simp
qed

text \<open>
  C1, as stated, fails for a session that starts in \<open>/home\<close>: the first call creates
  \<open>/home/a\<close> and stays in \<open>/home\<close>; the second call, on the same path, returns normally
  and leaves the session in \<open>/\<close>.
\<close>

theorem create_remote_directory_working_directory_counterexample:
  "fst (create_remote_directory (store_ftp home_store) ''a'' (start home_store)) = None
   \<and> fst (create_remote_directory (store_ftp home_store) ''a''
            (snd (create_remote_directory (store_ftp home_store) ''a'' (start home_store)))) = None
   \<and> ftp_pwd (store_ftp home_store)
        (srv (snd (create_remote_directory (store_ftp home_store) ''a'' (start home_store)))) = ''/home''
   \<and> ftp_pwd (store_ftp home_store)
        (srv (snd (create_remote_directory (store_ftp home_store) ''a''
            (snd (create_remote_directory (store_ftp home_store) ''a'' (start home_store)))))) = ''/''"
  by code_simp



section \<open>Tree uploader: best effort per file\<close>

lemma upload_directory_stors:
  "upload_directory ftp patterns items rd cnt w = (res, w') \<Longrightarrow>
     (\<exists>S. stor_paths (trace w') = stor_paths (trace w) @ S
          \<and> prefix S (remote_files patterns items rd))
     \<and> (\<forall>n. res = Inr n \<longrightarrow>
        stor_paths (trace w') = stor_paths (trace w) @ remote_files patterns items rd
        \<and> cnt \<le> n
        \<and> n + length (stored (trace w)) = cnt + length (stored (trace w')))
     \<and> (\<forall>e. res = Inl e \<longrightarrow>
        e = OtherError
        \<and> (\<not> walkable patterns items
            \<or> (trace w' \<noteq> [] \<and> (\<exists>p. last (trace w') = (MKD p, Some OtherError)))))"
proof (induction items arbitrary: rd cnt w res w' rule: measure_induct_rule [where f = "size_list size"])
  case (less items)
  show ?case
  proof (cases items)
    case Nil
    with less.prems show ?thesis by auto
  next
    case (Cons item rest)
    with less.prems have run: "upload_directory ftp patterns (item # rest) rd cnt w = (res, w')"
      by simp
    have small: "size_list size rest < size_list size items"
      using Cons by simp
    from run show ?thesis
    proof (cases rule: upload_directory_Cons_cases)
      case skip
      from less.IH [OF small skip(2)] skip(1) Cons show ?thesis by simp
    next
      case (regular p readable ok w1)
      note f = upload_file_effect [OF regular(3)]
      from less.IH [OF small regular(4)] obtain S where
        S: "stor_paths (trace w') = stor_paths (trace w1) @ S" "prefix S (remote_files patterns rest rd)"
        by blast
      let ?X = "if readable then [rd @ ''/'' @ name p] else []"
      have "stor_paths (trace w') = stor_paths (trace w) @ (?X @ S)"
        using S(1) f(1) by simp
      moreover have "prefix (?X @ S) (remote_files patterns items rd)"
        using S(2) regular(1,2) Cons by simp
      ultimately have first: "\<exists>S. stor_paths (trace w') = stor_paths (trace w) @ S
          \<and> prefix S (remote_files patterns items rd)" by blast
      from less.IH [OF small regular(4)] regular(1,2) Cons f have
        "(\<forall>n. res = Inr n \<longrightarrow>
            stor_paths (trace w') = stor_paths (trace w) @ remote_files patterns items rd
            \<and> cnt \<le> n
            \<and> n + length (stored (trace w)) = cnt + length (stored (trace w')))
         \<and> (\<forall>e. res = Inl e \<longrightarrow>
            e = OtherError
            \<and> (\<not> walkable patterns items
                \<or> (trace w' \<noteq> [] \<and> (\<exists>p. last (trace w') = (MKD p, Some OtherError)))))"
        by (auto split: if_splits)
      with first show ?thesis by blast
    next
      case (mkd_raises p children)
      from mkd_effect [OF mkd_raises(3)] mkd_raises(4) show ?thesis by simp
    next
      case (sub_raises p children r w1 e)
      have "size_list size children < size_list size items"
        using Cons sub_raises(1) by simp
      note ih = less.IH [OF this sub_raises(5)]
      from ih obtain S where
        S: "stor_paths (trace w') =
              stor_paths (trace (if r = None then print (CreatedDirectory (rd @ ''/'' @ name p)) w1 else w1)) @ S"
           "prefix S (remote_files patterns children (rd @ ''/'' @ name p))"
        by blast
      have "stor_paths (trace w') = stor_paths (trace w) @ S"
        using S(1) mkd_effect(1) [OF sub_raises(3)] by simp
      moreover have "prefix S (remote_files patterns items rd)"
        using S(2) sub_raises(1,2) Cons by (simp add: prefix_prefix)
      moreover have "e = OtherError
          \<and> (\<not> walkable patterns items
              \<or> (trace w' \<noteq> [] \<and> (\<exists>p. last (trace w') = (MKD p, Some OtherError))))"
        using ih sub_raises(1,2) Cons by auto
      ultimately show ?thesis using sub_raises(6) by blast
    next
      case (directory p children r w1 sub w2)
      have "size_list size children < size_list size items"
        using Cons directory(1) by simp
      note ihc = less.IH [OF this directory(5)]
      note ihr = less.IH [OF small directory(6)]
      from ihc have c: "stor_paths (trace w2) =
              stor_paths (trace w) @ remote_files patterns children (rd @ ''/'' @ name p)"
          "sub + length (stored (trace w)) = length (stored (trace w2))"
        using mkd_effect(1) [OF directory(3)] by (auto split: if_splits)
      from ihr obtain S where
        S: "stor_paths (trace w') = stor_paths (trace w2) @ S" "prefix S (remote_files patterns rest rd)"
        by blast
      have "stor_paths (trace w') =
              stor_paths (trace w) @ (remote_files patterns children (rd @ ''/'' @ name p) @ S)"
        using S(1) c(1) by simp
      moreover have "prefix (remote_files patterns children (rd @ ''/'' @ name p) @ S)
                       (remote_files patterns items rd)"
        using S(2) directory(1,2) Cons by simp
      ultimately have first: "\<exists>S. stor_paths (trace w') = stor_paths (trace w) @ S
          \<and> prefix S (remote_files patterns items rd)" by blast
      from ihr c directory(1,2) Cons have
        "(\<forall>n. res = Inr n \<longrightarrow>
            stor_paths (trace w') = stor_paths (trace w) @ remote_files patterns items rd
            \<and> cnt \<le> n
            \<and> n + length (stored (trace w)) = cnt + length (stored (trace w')))
         \<and> (\<forall>e. res = Inl e \<longrightarrow>
            e = OtherError
            \<and> (\<not> walkable patterns items
                \<or> (trace w' \<noteq> [] \<and> (\<exists>p. last (trace w') = (MKD p, Some OtherError)))))"
        by auto
      with first show ?thesis by blast
    next
      case (neither p)
      from less.IH [OF small neither(3)] neither(1,2) Cons show ?thesis by simp
    next
      case (unlistable p r w1)
      from mkd_effect(1) [OF unlistable(3)] unlistable(1,2,4,5) Cons show ?thesis by simp
    next
      case (unexaminable p)
      with Cons show ?thesis by simp
    qed
  qed
qed

text \<open>
  C5. A failed transfer never ends the loop. For a file at the head of the listing that
  is not excluded, the loop goes on with the items that are left whatever the transfer
  did, with the count one higher exactly when the file was opened and its \<open>STOR\<close>
  succeeded. So when \<open>upload_directory\<close> returns normally a \<open>STOR\<close> has been sent for
  every file of the walk that could be opened, in order, and the count has grown by
  exactly the number of \<open>STOR\<close> commands that succeeded; and when it ends early the
  \<open>STOR\<close>s sent are an initial run of those, and the end has another cause: the
  exception is not a permission error, and either the walk met a local entry that could
  not be examined or listed, or the last command sent is an \<open>MKD\<close> that raised it.
\<close>

theorem upload_directory_best_effort:
  assumes "upload_directory ftp patterns items remote_dir uploaded_count w = (res, w')"
  shows "(\<forall>p readable rest. items = LFile p readable # rest \<longrightarrow> \<not> should_exclude patterns p \<longrightarrow>
            (res, w') =
              upload_directory ftp patterns rest remote_dir
                (if readable \<and> fst (ftp_stor ftp (remote_dir @ ''/'' @ name p) (srv w)) = None
                 then uploaded_count + 1 else uploaded_count)
                (snd (upload_file ftp p readable (remote_dir @ ''/'' @ name p) w)))
       \<and> (\<exists>S. stor_paths (trace w') = stor_paths (trace w) @ S
              \<and> prefix S (remote_files patterns items remote_dir))
       \<and> (\<forall>n. res = Inr n \<longrightarrow>
            stor_paths (trace w') = stor_paths (trace w) @ remote_files patterns items remote_dir
            \<and> uploaded_count \<le> n
            \<and> length (stored (trace w')) = length (stored (trace w)) + (n - uploaded_count))
       \<and> (\<forall>e. res = Inl e \<longrightarrow>
            e = OtherError
            \<and> (\<not> walkable patterns items
                \<or> (trace w' \<noteq> [] \<and> (\<exists>p. last (trace w') = (MKD p, Some OtherError)))))"
proof -
  have "(res, w') =
          upload_directory ftp patterns rest remote_dir
            (if readable \<and> fst (ftp_stor ftp (remote_dir @ ''/'' @ name p) (srv w)) = None
             then uploaded_count + 1 else uploaded_count)
            (snd (upload_file ftp p readable (remote_dir @ ''/'' @ name p) w))"
    if "items = LFile p readable # rest" "\<not> should_exclude patterns p" for p readable rest
  proof -
    obtain ok w1 where u: "upload_file ftp p readable (remote_dir @ ''/'' @ name p) w = (ok, w1)"
      by (cases "upload_file ftp p readable (remote_dir @ ''/'' @ name p) w")
    from upload_file_effect(3) [OF u] assms that u show ?thesis
      by (cases ok) (auto simp: Let_def)
  qed
  with upload_directory_stors [OF assms] show ?thesis by auto
qed

theorem upload_directory_best_effort_witness:
  "upload_directory (store_ftp guarded_store) [] three_files ''r'' 0 (start guarded_store) =
     (Inr 2, snd (upload_directory (store_ftp guarded_store) [] three_files ''r'' 0 (start guarded_store)))
   \<and> trace (snd (upload_directory (store_ftp guarded_store) [] three_files ''r'' 0 (start guarded_store))) =
       [(STOR ''r/a.js'', None), (STOR ''r/b.js'', Some ErrorPerm), (STOR ''r/c.js'', None)]
   \<and> remote_files [] three_files ''r'' = [''r/a.js'', ''r/b.js'', ''r/c.js'']
   \<and> upload_directory (store_ftp guarded_store) [] (tl three_files) ''r'' 1
        (snd (upload_file (store_ftp guarded_store) \<lparr>path_str = ''/site/a.js'', name = ''a.js''\<rparr> True
                ''r/a.js'' (start guarded_store))) =
     (Inr 2, snd (upload_directory (store_ftp guarded_store) [] three_files ''r'' 0 (start guarded_store)))
   \<and> upload_directory dropped_ftp [] locked_dir ''r'' 0 (start guarded_store) =
     (Inl OtherError, snd (upload_directory dropped_ftp [] locked_dir ''r'' 0 (start guarded_store)))
   \<and> walkable [] locked_dir
   \<and> last (trace (snd (upload_directory dropped_ftp [] locked_dir ''r'' 0 (start guarded_store)))) =
       (MKD ''r/locked'', Some OtherError)
   \<and> upload_directory (store_ftp guarded_store) [] unlistable_dir ''r'' 0 (start guarded_store) =
     (Inl OtherError, snd (upload_directory (store_ftp guarded_store) [] unlistable_dir ''r'' 0
                             (start guarded_store)))
   \<and> \<not> walkable [] unlistable_dir
   \<and> stor_paths (trace (snd (upload_directory (store_ftp guarded_store) [] unlistable_dir ''r'' 0
                               (start guarded_store)))) = [''r/a.js'']"
proof -
  let ?w' = "snd (upload_directory (store_ftp guarded_store) [] three_files ''r'' 0 (start guarded_store))"
  let ?v' = "snd (upload_directory dropped_ftp [] locked_dir ''r'' 0 (start guarded_store))"
  let ?u' = "snd (upload_directory (store_ftp guarded_store) [] unlistable_dir ''r'' 0 (start guarded_store))"
  have run: "upload_directory (store_ftp guarded_store) [] three_files ''r'' 0 (start guarded_store) = (Inr 2, ?w')"
    by code_simp
  have tr: "trace ?w' = [(STOR ''r/a.js'', None), (STOR ''r/b.js'', Some ErrorPerm), (STOR ''r/c.js'', None)]"
    by code_simp
  have rf: "remote_files [] three_files ''r'' = [''r/a.js'', ''r/b.js'', ''r/c.js'']"
    by code_simp
  have hd: "three_files = LFile \<lparr>path_str = ''/site/a.js'', name = ''a.js''\<rparr> True # tl three_files"
    by code_simp
  have ne: "\<not> should_exclude [] \<lparr>path_str = ''/site/a.js'', name = ''a.js''\<rparr>"
    by simp
  have st: "fst (ftp_stor (store_ftp guarded_store) ''r/a.js'' (srv (start guarded_store))) = None"
    by code_simp
  have stop: "upload_directory dropped_ftp [] locked_dir ''r'' 0 (start guarded_store) = (Inl OtherError, ?v')"
    by code_simp
  have wk: "walkable [] locked_dir"
    by code_simp
  have lt: "last (trace ?v') = (MKD ''r/locked'', Some OtherError)"
    by code_simp
  have ul: "upload_directory (store_ftp guarded_store) [] unlistable_dir ''r'' 0 (start guarded_store) =
              (Inl OtherError, ?u')"
    by code_simp
  have nw: "\<not> walkable [] unlistable_dir"
    by code_simp
  have su: "stor_paths (trace ?u') = [''r/a.js'']"
    by code_simp
  note a = upload_directory_best_effort [OF run]
  from conjunct1 [OF a, rule_format, OF hd ne] have
    "(Inr 2, ?w') =
      upload_directory (store_ftp guarded_store) [] (tl three_files) ''r''
        (if True \<and> fst (ftp_stor (store_ftp guarded_store)
                            (''r'' @ ''/'' @ name \<lparr>path_str = ''/site/a.js'', name = ''a.js''\<rparr>)
                            (srv (start guarded_store))) = None
         then 0 + 1 else 0)
        (snd (upload_file (store_ftp guarded_store) \<lparr>path_str = ''/site/a.js'', name = ''a.js''\<rparr> True
                (''r'' @ ''/'' @ name \<lparr>path_str = ''/site/a.js'', name = ''a.js''\<rparr>)
                (start guarded_store)))" .
  with st have step: "upload_directory (store_ftp guarded_store) [] (tl three_files) ''r'' 1
        (snd (upload_file (store_ftp guarded_store) \<lparr>path_str = ''/site/a.js'', name = ''a.js''\<rparr> True
                ''r/a.js'' (start guarded_store))) = (Inr 2, ?w')"
    by simp
  show ?thesis
    by (intro conjI) (rule run tr rf step stop wk lt ul nw su)+
qed

section \<open>Tree uploader: what is returned\<close>







section \<open>Tree uploader: directories before files\<close>

lemma implied_dirs_child:
  assumes "CHR ''/'' \<notin> set n"
  shows "implied_dirs rd (rd @ ''/'' @ n) = []"
proof -
  have "p_k \<noteq> CHR ''/''"
    if "k \<in> set [length rd + 1 ..< length (rd @ ''/'' @ n)]" and "p_k = (rd @ ''/'' @ n) ! k" for k p_k
  proof -
    from that have "p_k = n ! (k - length rd - 1)" and "k - length rd - 1 < length n"
      by (auto simp: nth_append nth_Cons')
    with assms show ?thesis by (metis nth_mem)
  qed
  then show ?thesis
    unfolding implied_dirs_def by (simp add: filter_empty_conv)
qed

lemma implied_dirs_below:
  assumes "CHR ''/'' \<notin> set n" and "prefix ((rd @ ''/'' @ n) @ ''/'') p"
  shows "set (implied_dirs rd p) \<subseteq> insert (rd @ ''/'' @ n) (set (implied_dirs (rd @ ''/'' @ n) p))"
proof
  fix d assume "d \<in> set (implied_dirs rd p)"
  then obtain k where k: "d = take k p" "length rd + 1 \<le> k" "k < length p" "p ! k = CHR ''/''"
    by (auto simp: implied_dirs_def)
  from assms(2) obtain rest where p: "p = rd @ ''/'' @ n @ ''/'' @ rest"
    by (auto simp: prefix_def)
  have "\<not> k < length rd + 1 + length n"
  proof
    assume "k < length rd + 1 + length n"
    with k(2) p have "p ! k = n ! (k - length rd - 1)" "k - length rd - 1 < length n"
      by (auto simp: nth_append nth_Cons')
    with assms(1) k(4) show False by (metis nth_mem)
  qed
  then consider "k = length (rd @ ''/'' @ n)" | "length (rd @ ''/'' @ n) + 1 \<le> k"
    by fastforce
  then show "d \<in> insert (rd @ ''/'' @ n) (set (implied_dirs (rd @ ''/'' @ n) p))"
  proof cases
    case 1
    with k(1) p show ?thesis by simp
  next
    case 2
    with k show ?thesis by (auto simp: implied_dirs_def)
  qed
qed

lemma attempted_before_mono:
  "attempted_before rd seen T \<Longrightarrow> set seen \<subseteq> set seen' \<Longrightarrow> attempted_before rd seen' T"
proof (induction T arbitrary: seen seen')
  case Nil
  then show ?case by simp
next
  case (Cons x T)
  obtain c r where x: "x = (c, r)" by (cases x)
  show ?case
  proof (cases c)
    case (MKD d)
    with Cons.prems x have "attempted_before rd (d # seen) T" by simp
    from Cons.IH [OF this, of "d # seen'"] Cons.prems(2) x MKD show ?thesis by auto
  next
    case (STOR p)
    with Cons.prems x Cons.IH [of seen seen'] show ?thesis
      by (auto simp: list_all_iff)
  qed (use Cons x in auto)
qed

lemma attempted_before_append:
  "attempted_before rd seen (A @ B) \<longleftrightarrow>
     attempted_before rd seen A \<and> attempted_before rd (rev (mkd_paths A) @ seen) B"
proof (induction A arbitrary: seen)
  case Nil
  then show ?case by simp
next
  case (Cons x A)
  obtain c r where x: "x = (c, r)" by (cases x)
  show ?case using Cons [of seen] Cons x by (cases c) auto
qed

lemma attempted_before_lift:
  assumes "CHR ''/'' \<notin> set n"
  shows "attempted_before (rd @ ''/'' @ n) seen T \<Longrightarrow> set seen \<subseteq> set seen' \<Longrightarrow>
         rd @ ''/'' @ n \<in> set seen' \<Longrightarrow> attempted_before rd seen' T"
proof (induction T arbitrary: seen seen')
  case Nil
  then show ?case by simp
next
  case (Cons x T)
  obtain c r where x: "x = (c, r)" by (cases x)
  show ?case
  proof (cases c)
    case (MKD d)
    with Cons.prems x have "attempted_before (rd @ ''/'' @ n) (d # seen) T" by simp
    from Cons.IH [OF this, of "d # seen'"] Cons.prems(2,3) x MKD show ?thesis by auto
  next
    case (STOR p)
    with Cons.prems x have pre: "prefix ((rd @ ''/'' @ n) @ ''/'') p"
      and imp: "set (implied_dirs (rd @ ''/'' @ n) p) \<subseteq> set seen"
      and rest: "attempted_before (rd @ ''/'' @ n) seen T"
      by (auto simp: list_all_iff)
    from pre have "prefix (rd @ ''/'') p"
      by (auto simp: prefix_def)
    moreover from implied_dirs_below [OF assms pre] imp Cons.prems(2,3)
    have "set (implied_dirs rd p) \<subseteq> set seen'" by blast
    moreover from Cons.IH [OF rest Cons.prems(2,3)] have "attempted_before rd seen' T" .
    ultimately show ?thesis using x STOR by (simp add: list_all_iff subset_iff)
  qed (use Cons x in auto)
qed


lemma upload_directory_attempts:
  "plain_names items \<Longrightarrow> upload_directory ftp patterns items rd cnt w = (res, w') \<Longrightarrow>
     \<exists>T. trace w' = trace w @ T \<and> attempted_before rd [] T"
proof (induction items arbitrary: rd cnt w res w' rule: measure_induct_rule [where f = "size_list size"])
  case (less items)
  show ?case
  proof (cases items)
    case Nil
    with less.prems show ?thesis by auto
  next
    case (Cons item rest)
    with less.prems have run: "upload_directory ftp patterns (item # rest) rd cnt w = (res, w')"
      by simp
    have small: "size_list size rest < size_list size items"
      using Cons by simp
    from less.prems(1) Cons have plain: "CHR ''/'' \<notin> set (name (node_path item))" "plain_names rest"
      by simp_all
    from run show ?thesis
    proof (cases rule: upload_directory_Cons_cases)
      case skip
      from less.IH [OF small plain(2) skip(2)] show ?thesis by simp
    next
      case (regular p readable ok w1)
      note f = upload_file_effect [OF regular(3)]
      from less.IH [OF small plain(2) regular(4)] obtain T where
        T: "trace w' = trace w1 @ T" "attempted_before rd [] T" by blast
      let ?S = "if readable then [(STOR (rd @ ''/'' @ name p), fst (ftp_stor ftp (rd @ ''/'' @ name p) (srv w)))] else []"
      have "attempted_before rd [] ?S"
        using plain(1) regular(1) implied_dirs_child [of "name p" rd] by simp
      with T(2) have "attempted_before rd [] (?S @ T)"
        by (auto simp: attempted_before_append)
      moreover have "trace w' = trace w @ (?S @ T)"
        using T(1) f(1) by simp
      ultimately show ?thesis by blast
    next
      case (mkd_raises p children)
      from mkd_effect(1) [OF mkd_raises(3)] show ?thesis by simp
    next
      case (sub_raises p children r w1 e)
      have "size_list size children < size_list size items"
        using Cons sub_raises(1) by simp
      moreover have "plain_names children"
        using less.prems(1) Cons sub_raises(1) by simp
      ultimately obtain T where
        T: "trace w' = trace (if r = None then print (CreatedDirectory (rd @ ''/'' @ name p)) w1 else w1) @ T"
           "attempted_before (rd @ ''/'' @ name p) [] T"
        using less.IH [OF _ _ sub_raises(5)] by blast
      have "CHR ''/'' \<notin> set (name p)"
        using plain(1) sub_raises(1) by simp
      from attempted_before_lift [OF this T(2), of "[rd @ ''/'' @ name p]"]
      have "attempted_before rd [] ((MKD (rd @ ''/'' @ name p), r) # T)" by simp
      moreover have "trace w' = trace w @ ((MKD (rd @ ''/'' @ name p), r) # T)"
        using T(1) mkd_effect(1) [OF sub_raises(3)] by simp
      ultimately show ?thesis by blast
    next
      case (directory p children r w1 sub w2)
      have "size_list size children < size_list size items"
        using Cons directory(1) by simp
      moreover have "plain_names children"
        using less.prems(1) Cons directory(1) by simp
      ultimately obtain T1 where
        T1: "trace w2 = trace (if r = None then print (CreatedDirectory (rd @ ''/'' @ name p)) w1 else w1) @ T1"
           "attempted_before (rd @ ''/'' @ name p) [] T1"
        using less.IH [OF _ _ directory(5)] by blast
      from less.IH [OF small plain(2) directory(6)] obtain T2 where
        T2: "trace w' = trace w2 @ T2" "attempted_before rd [] T2" by blast
      have "CHR ''/'' \<notin> set (name p)"
        using plain(1) directory(1) by simp
      from attempted_before_lift [OF this T1(2), of "[rd @ ''/'' @ name p]"]
      have "attempted_before rd [] ((MKD (rd @ ''/'' @ name p), r) # T1)" by simp
      moreover from T2(2) have "attempted_before rd (rev (mkd_paths ((MKD (rd @ ''/'' @ name p), r) # T1)) @ []) T2"
        by (rule attempted_before_mono) simp
      ultimately have "attempted_before rd [] (((MKD (rd @ ''/'' @ name p), r) # T1) @ T2)"
        by (simp only: attempted_before_append) 
      moreover have "trace w' = trace w @ (((MKD (rd @ ''/'' @ name p), r) # T1) @ T2)"
        using T1(1) T2(1) mkd_effect(1) [OF directory(3)] by simp
      ultimately show ?thesis by blast
    next
      case (neither p)
      from less.IH [OF small plain(2) neither(3)] show ?thesis by simp
    next
      case (unlistable p r w1)
      from mkd_effect(1) [OF unlistable(3)] unlistable(5) show ?thesis by simp
    next
      case (unexaminable p)
      then show ?thesis by simp
    qed
  qed
qed

lemma upload_directory_trace:
  "upload_directory ftp patterns items rd cnt w = (res, w') \<Longrightarrow> \<exists>T. trace w' = trace w @ T"
proof (induction items arbitrary: rd cnt w res w' rule: measure_induct_rule [where f = "size_list size"])
  case (less items)
  show ?case
  proof (cases items)
    case Nil
    with less.prems show ?thesis by auto
  next
    case (Cons item rest)
    with less.prems have run: "upload_directory ftp patterns (item # rest) rd cnt w = (res, w')"
      by simp
    have small: "size_list size rest < size_list size items"
      using Cons by simp
    from run show ?thesis
    proof (cases rule: upload_directory_Cons_cases)
      case skip
      from less.IH [OF small skip(2)] show ?thesis by simp
    next
      case (regular p readable ok w1)
      from less.IH [OF small regular(4)] upload_file_effect(1) [OF regular(3)] show ?thesis
        by auto
    next
      case (mkd_raises p children)
      from mkd_effect(1) [OF mkd_raises(3)] show ?thesis by simp
    next
      case (sub_raises p children r w1 e)
      have "size_list size children < size_list size items"
        using Cons sub_raises(1) by simp
      from less.IH [OF this sub_raises(5)] mkd_effect(1) [OF sub_raises(3)] show ?thesis
        by (auto split: if_splits)
    next
      case (directory p children r w1 sub w2)
      have "size_list size children < size_list size items"
        using Cons directory(1) by simp
      from less.IH [OF this directory(5)] less.IH [OF small directory(6)]
        mkd_effect(1) [OF directory(3)]
      show ?thesis by (auto split: if_splits)
    next
      case (neither p)
      from less.IH [OF small neither(3)] show ?thesis .
    next
      case (unlistable p r w1)
      from mkd_effect(1) [OF unlistable(3)] unlistable(5) show ?thesis by simp
    next
      case (unexaminable p)
      then show ?thesis by simp
    qed
  qed
qed

lemma deploy_loop_trace:
  "deploy_loop self ftp local_item item_names total_uploaded w = (res, w') \<Longrightarrow>
     \<exists>T. trace w' = trace w @ T"
proof (induction item_names arbitrary: total_uploaded w)
  case Nil
  then show ?case by simp
next
  case (Cons item_name item_names)
  show ?case
  proof (cases "local_item item_name")
    case None
    with Cons.prems Cons.IH [of total_uploaded "print (SkippedMissingItem item_name) w"]
    show ?thesis by simp
  next
    case (Some item)
    show ?thesis
    proof (cases item)
      case (LFile p readable)
      obtain ok w1 where u: "upload_file ftp p readable (remote_app_path self @ ''/'' @ item_name) w = (ok, w1)"
        by (cases "upload_file ftp p readable (remote_app_path self @ ''/'' @ item_name) w")
      with Some LFile Cons.prems Cons.IH [of "total_uploaded + 1" w1] Cons.IH [of total_uploaded w1]
        upload_file_effect(1) [OF u]
      show ?thesis by (cases ok) (auto simp: Let_def)
    next
      case (LDir p children)
      obtain r w1 where m: "mkd ftp (remote_app_path self @ ''/'' @ item_name) w = (r, w1)"
        by (cases "mkd ftp (remote_app_path self @ ''/'' @ item_name) w")
      obtain res1 w2 where u: "upload_directory ftp (exclude_patterns self) children
          (remote_app_path self @ ''/'' @ item_name) 0
          (if r = None then print (CreatedDirectory (remote_app_path self @ ''/'' @ item_name)) w1 else w1)
          = (res1, w2)"
        by (cases "upload_directory ftp (exclude_patterns self) children
          (remote_app_path self @ ''/'' @ item_name) 0
          (if r = None then print (CreatedDirectory (remote_app_path self @ ''/'' @ item_name)) w1 else w1)")
      from upload_directory_trace [OF u] mkd_effect(1) [OF m] obtain T1 where
        T1: "trace w2 = trace w @ (MKD (remote_app_path self @ ''/'' @ item_name), r) # T1"
        by (auto split: if_splits)
      show ?thesis
      proof (cases "r = Some OtherError \<or> isl res1")
        case True
        with Some LDir m u Cons.prems mkd_effect(1) [OF m] T1 show ?thesis
          by (auto simp: Let_def split: option.splits ftp_error.splits sum.splits)
      next
        case False
        then obtain count where "res1 = Inr count" by (cases res1) auto
        with False Some LDir m u Cons.prems have
          "deploy_loop self ftp local_item item_names (total_uploaded + count) w2 = (res, w')"
          by (auto simp: Let_def split: option.splits ftp_error.splits)
        from Cons.IH [OF this] T1 show ?thesis by auto
      qed
    next
      case (LOther p)
      with Some Cons.prems Cons.IH [of total_uploaded w] show ?thesis by (simp add: Let_def)
    next
      case (LNoList p)
      obtain r w1 where m: "mkd ftp (remote_app_path self @ ''/'' @ item_name) w = (r, w1)"
        by (cases "mkd ftp (remote_app_path self @ ''/'' @ item_name) w")
      with Some LNoList Cons.prems mkd_effect(1) [OF m] show ?thesis
        by (auto simp: Let_def)
    next
      case (LNoStat p)
      with Some Cons.prems show ?thesis by (simp add: Let_def)
    qed
  qed
qed

lemma deploy_loop_directory_item:
  assumes item: "local_item item_name = Some (LDir p children)"
      and plain: "plain_names children"
      and run: "deploy_loop self ftp local_item (item_name # item_names) total_uploaded w = (Inr n, w')"
  shows "\<exists>r T T'. trace w' = trace w @ (MKD (remote_app_path self @ ''/'' @ item_name), r) # T @ T'
           \<and> attempted_before (remote_app_path self @ ''/'' @ item_name) [] T
           \<and> stor_paths T = remote_files (exclude_patterns self) children
                               (remote_app_path self @ ''/'' @ item_name)"
proof -
  let ?rip = "remote_app_path self @ ''/'' @ item_name"
  obtain r w1 where m: "mkd ftp ?rip w = (r, w1)"
    by (cases "mkd ftp ?rip w")
  let ?w1 = "if r = None then print (CreatedDirectory ?rip) w1 else w1"
  obtain res1 w2 where u: "upload_directory ftp (exclude_patterns self) children ?rip 0 ?w1 = (res1, w2)"
    by (cases "upload_directory ftp (exclude_patterns self) children ?rip 0 ?w1")
  from item m u run obtain count where
    ok: "r \<noteq> Some OtherError" "res1 = Inr count"
    and rest: "deploy_loop self ftp local_item item_names (total_uploaded + count) w2 = (Inr n, w')"
    by (cases res1) (auto simp: Let_def split: option.splits ftp_error.splits)
  have t1: "trace ?w1 = trace w @ [(MKD ?rip, r)]"
    using mkd_effect(1) [OF m] by simp
  from upload_directory_attempts [OF plain u] obtain T where
    T: "trace w2 = trace ?w1 @ T" "attempted_before ?rip [] T" by blast
  from upload_directory_stors [OF u] ok(2) T(1) have
    sp: "stor_paths T = remote_files (exclude_patterns self) children ?rip" by simp
  from deploy_loop_trace [OF rest] obtain T' where T': "trace w' = trace w2 @ T'" by blast
  have "trace w' = trace w @ (MKD ?rip, r) # T @ T'"
    using T' T(1) t1 by simp
  with T(2) sp show ?thesis by blast
qed

text \<open>
  C4, as the code has it. When the final name components contain no slash, every \<open>STOR\<close>
  that \<open>upload_directory\<close> sends is for a path below \<open>remote_dir\<close>, and an \<open>MKD\<close> has been
  sent before it for every directory its path implies below \<open>remote_dir\<close>. At the top
  level, when the loop of \<open>deploy\<close> returns normally, the \<open>MKD\<close> of a directory item's
  remote path is sent first, then the commands for its contents, which hold the \<open>STOR\<close>
  of each of its files after the \<open>MKD\<close>s of the directories implied below the item. The
  \<open>MKD\<close> is an attempt: a permission error from it is ignored and the directory is not
  probed.
\<close>

theorem upload_directory_mkd_before_stor:
  "(plain_names items \<longrightarrow>
      upload_directory ftp patterns items remote_dir uploaded_count w = (res, w') \<longrightarrow>
      (\<exists>T. trace w' = trace w @ T \<and> attempted_before remote_dir [] T))
   \<and> (local_item item_name = Some (LDir p children) \<longrightarrow> plain_names children \<longrightarrow>
      deploy_loop self ftp local_item (item_name # item_names) total_uploaded v = (Inr n, v') \<longrightarrow>
      (\<exists>r T T'. trace v' = trace v @ (MKD (remote_app_path self @ ''/'' @ item_name), r) # T @ T'
          \<and> attempted_before (remote_app_path self @ ''/'' @ item_name) [] T
          \<and> stor_paths T = remote_files (exclude_patterns self) children
                              (remote_app_path self @ ''/'' @ item_name)))"
  using upload_directory_attempts [of items ftp patterns remote_dir uploaded_count w res w']
    deploy_loop_directory_item [of local_item item_name p children self ftp item_names total_uploaded v n v']
  by blast

theorem upload_directory_mkd_before_stor_witness:
  "plain_names locked_dir
   \<and> trace (snd (upload_directory (store_ftp guarded_store) [] locked_dir ''r'' 0 (start guarded_store))) =
       [(MKD ''r/locked'', Some ErrorPerm), (STOR ''r/locked/f.js'', Some ErrorPerm)]
   \<and> attempted_before ''r'' []
        (trace (snd (upload_directory (store_ftp guarded_store) [] locked_dir ''r'' 0 (start guarded_store))))
   \<and> sample_site ''src/'' = Some (LDir \<lparr>path_str = ''/site/src'', name = ''src''\<rparr> src_children)
   \<and> plain_names src_children
   \<and> deploy_loop (init ''h'' ''u'' ''p'') (store_ftp app_store) sample_site [''src/'', ''index.html''] 0
        (start app_store) =
       (Inr 3, snd (deploy_loop (init ''h'' ''u'' ''p'') (store_ftp app_store) sample_site
                      [''src/'', ''index.html''] 0 (start app_store)))
   \<and> (\<exists>r T T'. trace (snd (deploy_loop (init ''h'' ''u'' ''p'') (store_ftp app_store) sample_site
                                [''src/'', ''index.html''] 0 (start app_store))) =
          (MKD ''bobd77.sg-host.com/public_html/app/src/'', r) # T @ T'
        \<and> attempted_before ''bobd77.sg-host.com/public_html/app/src/'' [] T
        \<and> stor_paths T = [''bobd77.sg-host.com/public_html/app/src//app.js'',
                           ''bobd77.sg-host.com/public_html/app/src//ui/map.js''])"
proof -
  have pl: "plain_names locked_dir"
    by code_simp
  have tr: "trace (snd (upload_directory (store_ftp guarded_store) [] locked_dir ''r'' 0 (start guarded_store))) =
       [(MKD ''r/locked'', Some ErrorPerm), (STOR ''r/locked/f.js'', Some ErrorPerm)]"
    by code_simp
  have it: "sample_site ''src/'' = Some (LDir \<lparr>path_str = ''/site/src'', name = ''src''\<rparr> src_children)"
    by code_simp
  have ps: "plain_names src_children"
    by code_simp
  have run: "deploy_loop (init ''h'' ''u'' ''p'') (store_ftp app_store) sample_site [''src/'', ''index.html''] 0
        (start app_store) =
       (Inr 3, snd (deploy_loop (init ''h'' ''u'' ''p'') (store_ftp app_store) sample_site
                      [''src/'', ''index.html''] 0 (start app_store)))"
    by code_simp
  have rf: "remote_files (exclude_patterns (init ''h'' ''u'' ''p'')) src_children
              ''bobd77.sg-host.com/public_html/app/src/'' =
            [''bobd77.sg-host.com/public_html/app/src//app.js'',
             ''bobd77.sg-host.com/public_html/app/src//ui/map.js'']"
    by code_simp
  have ra: "remote_app_path (init ''h'' ''u'' ''p'') @ ''/'' @ ''src/'' =
              ''bobd77.sg-host.com/public_html/app/src/''"
    by code_simp
  note inst = upload_directory_mkd_before_stor [where items = locked_dir and ftp = "store_ftp guarded_store"
      and patterns = "[]" and remote_dir = "''r''" and uploaded_count = 0 and w = "start guarded_store"
      and res = "fst (upload_directory (store_ftp guarded_store) [] locked_dir ''r'' 0 (start guarded_store))"
      and w' = "snd (upload_directory (store_ftp guarded_store) [] locked_dir ''r'' 0 (start guarded_store))"]
  note top = upload_directory_mkd_before_stor [where ftp = "store_ftp app_store"
      and local_item = sample_site and item_name = "''src/''"
      and p = "\<lparr>path_str = ''/site/src'', name = ''src''\<rparr>" and children = src_children
      and self = "init ''h'' ''u'' ''p''" and item_names = "[''index.html'']" and total_uploaded = 0
      and v = "start app_store" and n = 3
      and v' = "snd (deploy_loop (init ''h'' ''u'' ''p'') (store_ftp app_store) sample_site
                      [''src/'', ''index.html''] 0 (start app_store))"]
  have tg: "trace (start guarded_store) = []" and ta: "trace (start app_store) = []"
    by (simp_all add: start_def)
  from inst pl have "\<exists>T. trace (snd (upload_directory (store_ftp guarded_store) [] locked_dir ''r'' 0
                                       (start guarded_store))) = trace (start guarded_store) @ T
                       \<and> attempted_before ''r'' [] T"
    by (simp only: prod.collapse simp_thms)
  then have a: "attempted_before ''r'' []
        (trace (snd (upload_directory (store_ftp guarded_store) [] locked_dir ''r'' 0 (start guarded_store))))"
    unfolding tg by (simp only: append_Nil) blast
  from top it ps run have "\<exists>r T T'. trace (snd (deploy_loop (init ''h'' ''u'' ''p'') (store_ftp app_store) sample_site
                                [''src/'', ''index.html''] 0 (start app_store))) =
          trace (start app_store) @ (MKD (remote_app_path (init ''h'' ''u'' ''p'') @ ''/'' @ ''src/''), r) # T @ T'
        \<and> attempted_before (remote_app_path (init ''h'' ''u'' ''p'') @ ''/'' @ ''src/'') [] T
        \<and> stor_paths T = remote_files (exclude_patterns (init ''h'' ''u'' ''p'')) src_children
                              (remote_app_path (init ''h'' ''u'' ''p'') @ ''/'' @ ''src/'')"
    by blast
  then have b: "\<exists>r T T'. trace (snd (deploy_loop (init ''h'' ''u'' ''p'') (store_ftp app_store) sample_site
                                [''src/'', ''index.html''] 0 (start app_store))) =
          (MKD ''bobd77.sg-host.com/public_html/app/src/'', r) # T @ T'
        \<and> attempted_before ''bobd77.sg-host.com/public_html/app/src/'' [] T
        \<and> stor_paths T = [''bobd77.sg-host.com/public_html/app/src//app.js'',
                           ''bobd77.sg-host.com/public_html/app/src//ui/map.js'']"
    unfolding rf ra ta by (simp only: append_Nil)
  from pl tr a it ps run b show ?thesis by blast
qed

text \<open>
  C4, as stated, fails: the server refuses to create \<open>/r/locked\<close>, the directory does not
  exist and is not probed, and the \<open>STOR\<close> of the file below it is sent all the same.
\<close>

theorem upload_directory_mkd_before_stor_counterexample:
  "trace (snd (upload_directory (store_ftp guarded_store) [] locked_dir ''r'' 0 (start guarded_store))) =
       [(MKD ''r/locked'', Some ErrorPerm), (STOR ''r/locked/f.js'', Some ErrorPerm)]
   \<and> implied_dirs ''r'' ''r/locked/f.js'' = [''r/locked'']
   \<and> \<not> ready_before ''r'' []
        (trace (snd (upload_directory (store_ftp guarded_store) [] locked_dir ''r'' 0 (start guarded_store))))"
  by code_simp


section \<open>Remote cleaner: entries that cannot be deleted\<close>

lemma remove_directory_returns: "fst (remove_directory depth ftp path w) = None"
  by (cases depth) (simp_all split: prod.splits)

lemma remove_directory_preserves:
  assumes refl: "\<And>w. Q w w" and trans: "\<And>a b c. Q a b \<Longrightarrow> Q b c \<Longrightarrow> Q a c"
      and step: "\<And>c f w. Q w (snd (send c f w))"
      and list: "\<And>w. Q w (snd (retrlines_nlst ftp w))"
  shows "Q w (snd (remove_directory depth ftp path w))
       \<and> Q w (snd (remove_directory_loop depth ftp items w))"
proof -
  have loop: "Q w (snd (remove_directory_loop depth ftp items w))"
    if dir: "\<And>path w. Q w (snd (remove_directory depth ftp path w))" for depth items w
  proof (induction items arbitrary: w)
    case Nil
    show ?case by (simp add: refl)
  next
    case (Cons item items)
    show ?case
    proof (cases "item \<noteq> ''.'' \<and> item \<noteq> ''..''")
      case False
      with Cons show ?thesis by auto
    next
      case True
      obtain r1 w1 where d: "delete ftp item w = (r1, w1)" by (cases "delete ftp item w")
      have q1: "Q w w1" using step [of w "DELE item" "ftp_delete ftp item"] d
        by (simp add: delete_def)
      obtain r2 w2 where rd: "remove_directory depth ftp item w1 = (r2, w2)"
        by (cases "remove_directory depth ftp item w1")
      have q2: "Q w1 w2" using dir [of w1 item] rd by simp
      from True d rd q1 q2 Cons [of w1] Cons [of w2] show ?thesis
        by (auto split: option.splits ftp_error.splits intro: trans)
    qed
  qed
  have dir: "Q w (snd (remove_directory depth ftp path w))" for depth path w
  proof (induction depth arbitrary: path w)
    case 0
    show ?case by (simp add: refl)
  next
    case (Suc depth)
    obtain r1 w1 where c1: "cwd ftp path w = (r1, w1)" by (cases "cwd ftp path w")
    have q1: "Q w w1" using step [of w "CWD path" "ftp_cwd ftp path"] c1 by (simp add: cwd_def)
    obtain r2 w2 where n2: "retrlines_nlst ftp w1 = (r2, w2)" by (cases "retrlines_nlst ftp w1")
    have q2: "Q w1 w2" using list [of w1] n2 by simp
    show ?case
    proof (cases "r1 = None \<and> \<not> isl r2")
      case False
      with c1 n2 q1 q2 show ?thesis
        by (auto split: option.splits sum.splits intro: trans)
    next
      case True
      then obtain items where r2: "r2 = Inr items" by (cases r2) auto
      obtain r3 w3 where l3: "remove_directory_loop depth ftp items w2 = (r3, w3)"
        by (cases "remove_directory_loop depth ftp items w2")
      have q3: "Q w2 w3" using loop [of depth w2 items] Suc.IH l3 by simp
      obtain r4 w4 where c4: "cwd ftp ''..'' w3 = (r4, w4)" by (cases "cwd ftp ''..'' w3")
      have q4: "Q w3 w4" using step [of w3 "CWD ''..''" "ftp_cwd ftp ''..''"] c4 by (simp add: cwd_def)
      obtain r5 w5 where m5: "rmd ftp path w4 = (r5, w5)" by (cases "rmd ftp path w4")
      have q5: "Q w4 w5" using step [of w4 "RMD path" "ftp_rmd ftp path"] m5 by (simp add: rmd_def)
      have "Q w w3" using q1 q2 q3 trans by blast
      moreover have "Q w w4" using calculation q4 trans by blast
      moreover have "Q w w5" using calculation q5 trans by blast
      ultimately show ?thesis using True r2 c1 n2 l3 c4 m5
        by (auto split: option.splits)
    qed
  qed
  from dir loop show ?thesis by blast
qed


lemma remove_directory_silent:
  "out (snd (remove_directory depth ftp path w)) = out w"
  using remove_directory_preserves [where Q = "\<lambda>w w'. out w' = out w" and ftp = ftp]
  by (simp add: send_eq retrlines_nlst_def split_beta)

lemma remove_directory_trace:
  "\<exists>T. trace (snd (remove_directory depth ftp path w)) = trace w @ T"
proof -
  have "(\<exists>T. trace (snd (remove_directory depth ftp path w)) = trace w @ T)
      \<and> (\<exists>T. trace (snd (remove_directory_loop depth ftp [] w)) = trace w @ T)"
    by (rule remove_directory_preserves [where Q = "\<lambda>w w'. \<exists>T. trace w' = trace w @ T"])
       (auto simp: send_eq retrlines_nlst_def split_beta)
  then show ?thesis by blast
qed

lemma clean_loop_runs:
  assumes no_other: "\<And>p s. fst (ftp_delete ftp p s) \<noteq> Some OtherError"
  shows "clean_remote_directory_loop depth ftp items w = (r, w') \<Longrightarrow>
     r = None \<and> (\<exists>T. trace w' = trace w @ T \<and> set (real_entries items) \<subseteq> set (dele_paths T))"
proof (induction items arbitrary: w)
  case Nil
  then show ?case by (simp add: real_entries_def)
next
  case (Cons item items)
  show ?case
  proof (cases "item \<noteq> ''.'' \<and> item \<noteq> ''..''")
    case False
    with Cons.prems have "clean_remote_directory_loop depth ftp items w = (r, w')" by auto
    from Cons.IH [OF this] False show ?thesis by (auto simp: real_entries_def)
  next
    case True
    obtain r1 w1 where d: "delete ftp item w = (r1, w1)" by (cases "delete ftp item w")
    then have t1: "trace w1 = trace w @ [(DELE item, r1)]" and r1: "r1 = fst (ftp_delete ftp item (srv w))"
      by (auto simp: delete_def send_eq)
    from r1 no_other have nr: "r1 \<noteq> Some OtherError" by simp
    obtain r2 w2 where rd: "remove_directory depth ftp item w1 = (r2, w2)"
      by (cases "remove_directory depth ftp item w1")
    with remove_directory_returns [of depth ftp item w1] have r2: "r2 = None" by simp
    from remove_directory_trace [of depth ftp item w1] rd obtain T2 where
      t2: "trace w2 = trace w1 @ T2" by auto
    define w3 where "w3 = (if r1 = None then print (DeletedFile item) w1
                           else print (DeletedDirectory item) w2)"
    from Cons.prems True d rd r2 nr have "clean_remote_directory_loop depth ftp items w3 = (r, w')"
      by (auto simp: w3_def split: option.splits ftp_error.splits)
    from Cons.IH [OF this] obtain T where
      T: "r = None" "trace w' = trace w3 @ T" "set (real_entries items) \<subseteq> set (dele_paths T)"
      by blast
    have "trace w' = trace w @ ((DELE item, r1) # (if r1 = None then [] else T2) @ T)"
      using T(2) t1 t2 by (simp add: w3_def)
    moreover have "set (real_entries (item # items))
        \<subseteq> set (dele_paths ((DELE item, r1) # (if r1 = None then [] else T2) @ T))"
      using T(3) True by (auto simp: real_entries_def)
    ultimately show ?thesis using T(1) by blast
  qed
qed

lemma remove_loop_runs:
  assumes no_other: "\<And>p s. fst (ftp_delete ftp p s) \<noteq> Some OtherError"
  shows "remove_directory_loop depth ftp items w = (r, w') \<Longrightarrow>
     r = None \<and> (\<exists>T. trace w' = trace w @ T \<and> set (real_entries items) \<subseteq> set (dele_paths T))"
proof (induction items arbitrary: w)
  case Nil
  then show ?case by (simp add: real_entries_def)
next
  case (Cons item items)
  show ?case
  proof (cases "item \<noteq> ''.'' \<and> item \<noteq> ''..''")
    case False
    with Cons.prems have "remove_directory_loop depth ftp items w = (r, w')" by auto
    from Cons.IH [OF this] False show ?thesis by (auto simp: real_entries_def)
  next
    case True
    obtain r1 w1 where d: "delete ftp item w = (r1, w1)" by (cases "delete ftp item w")
    then have t1: "trace w1 = trace w @ [(DELE item, r1)]" and r1: "r1 = fst (ftp_delete ftp item (srv w))"
      by (auto simp: delete_def send_eq)
    from r1 no_other have nr: "r1 \<noteq> Some OtherError" by simp
    obtain r2 w2 where rd: "remove_directory depth ftp item w1 = (r2, w2)"
      by (cases "remove_directory depth ftp item w1")
    with remove_directory_returns [of depth ftp item w1] have r2: "r2 = None" by simp
    from remove_directory_trace [of depth ftp item w1] rd obtain T2 where
      t2: "trace w2 = trace w1 @ T2" by auto
    define w3 where "w3 = (if r1 = None then w1 else w2)"
    from Cons.prems True d rd r2 nr have "remove_directory_loop depth ftp items w3 = (r, w')"
      by (auto simp: w3_def split: option.splits ftp_error.splits)
    from Cons.IH [OF this] obtain T where
      T: "r = None" "trace w' = trace w3 @ T" "set (real_entries items) \<subseteq> set (dele_paths T)"
      by blast
    have "trace w' = trace w @ ((DELE item, r1) # (if r1 = None then [] else T2) @ T)"
      using T(2) t1 t2 by (simp add: w3_def)
    moreover have "set (real_entries (item # items))
        \<subseteq> set (dele_paths ((DELE item, r1) # (if r1 = None then [] else T2) @ T))"
      using T(3) True by (auto simp: real_entries_def)
    ultimately show ?thesis using T(1) by blast
  qed
qed

text \<open>
  C7, as the code has it. When the server's refusals of \<open>DELE\<close> are permission errors,
  the loop of \<open>clean_remote_directory\<close> and the loop of \<open>remove_directory\<close> both run to
  the end without raising, and send a \<open>DELE\<close> for every entry of the listing other than
  \<open>.\<close> and \<open>..\<close>, whatever happened to the entries before it: an entry that could not be
  deleted is passed over. \<open>remove_directory\<close> never raises and prints nothing, so what
  fails inside it is not logged.
\<close>

theorem clean_continues_past_refusals:
  assumes "\<And>p s. fst (ftp_delete ftp p s) \<noteq> Some OtherError"
  shows "fst (clean_remote_directory_loop depth ftp items w) = None
       \<and> (\<exists>T. trace (snd (clean_remote_directory_loop depth ftp items w)) = trace w @ T
              \<and> set (real_entries items) \<subseteq> set (dele_paths T))
       \<and> fst (remove_directory_loop depth ftp items w) = None
       \<and> (\<exists>T. trace (snd (remove_directory_loop depth ftp items w)) = trace w @ T
              \<and> set (real_entries items) \<subseteq> set (dele_paths T))
       \<and> fst (remove_directory depth ftp path w) = None
       \<and> out (snd (remove_directory depth ftp path w)) = out w"
  using clean_loop_runs [OF assms prod.collapse [symmetric], of depth items w]
    remove_loop_runs [OF assms prod.collapse [symmetric], of depth items w]
    remove_directory_returns [of depth ftp path w] remove_directory_silent [of depth ftp path w]
  by simp


theorem clean_continues_past_refusals_witness:
  "fst (clean_remote_directory_loop 10 (store_ftp stale_store) [''.'', ''d'', ''x'', ''z'']
          ((start stale_store)\<lparr>srv := stale_store\<lparr>store_cwd := [''app'']\<rparr>\<rparr>)) = None
   \<and> set (real_entries [''.'', ''d'', ''x'', ''z'']) \<subseteq>
       set (dele_paths (trace (snd (clean_remote_directory_loop 10 (store_ftp stale_store)
          [''.'', ''d'', ''x'', ''z''] ((start stale_store)\<lparr>srv := stale_store\<lparr>store_cwd := [''app'']\<rparr>\<rparr>)))))
   \<and> dele_paths (trace (snd (clean_remote_directory_loop 10 (store_ftp stale_store)
          [''.'', ''d'', ''x'', ''z''] ((start stale_store)\<lparr>srv := stale_store\<lparr>store_cwd := [''app'']\<rparr>\<rparr>))))
       = [''d'', ''y'', ''x'', ''z'']"
proof -
  have d: "dele_paths (trace (snd (clean_remote_directory_loop 10 (store_ftp stale_store)
          [''.'', ''d'', ''x'', ''z''] ((start stale_store)\<lparr>srv := stale_store\<lparr>store_cwd := [''app'']\<rparr>\<rparr>))))
       = [''d'', ''y'', ''x'', ''z'']"
    by code_simp
  have e: "real_entries [''.'', ''d'', ''x'', ''z''] = [''d'', ''x'', ''z'']"
    by code_simp
  from clean_continues_past_refusals [of "store_ftp stale_store" 10 "[''.'', ''d'', ''x'', ''z'']"
      "(start stale_store)\<lparr>srv := stale_store\<lparr>store_cwd := [''app'']\<rparr>\<rparr>", OF store_delete_no_other] d e
  show ?thesis by simp
qed

text \<open>
  C7, as stated, fails: \<open>/app/x\<close> and \<open>/app/d/y\<close> cannot be deleted by any method and are
  still there after the clean pass. Nothing is printed for \<open>y\<close>, and \<open>x\<close> and \<open>d\<close> are
  reported as deleted directories.
\<close>

theorem clean_continues_past_refusals_counterexample:
  "clean_remote_directory 10 (store_ftp stale_store) ''app'' (start stale_store) =
     (None,
      \<lparr>srv = \<lparr>store_cwd = [], store_dirs = [[''app''], [''app'', ''d'']],
               store_files = [[''app'', ''x''], [''app'', ''d'', ''y'']],
               store_denied = [[''app'', ''x''], [''app'', ''d'', ''y'']]\<rparr>,
       trace = [(CWD ''app'', None), (NLST, None), (DELE ''d'', Some ErrorPerm),
                (CWD ''d'', None), (NLST, None), (DELE ''y'', Some ErrorPerm),
                (CWD ''y'', Some ErrorPerm), (CWD ''..'', None), (RMD ''d'', Some ErrorPerm),
                (DELE ''x'', Some ErrorPerm), (CWD ''x'', Some ErrorPerm), (DELE ''z'', None),
                (CWD ''/'', None)],
       out = [DeletedDirectory ''d'', DeletedDirectory ''x'', DeletedFile ''z'']\<rparr>)"
  by code_simp

section \<open>Deployment orchestrator: the exit status\<close>







end
